theory Spec2Isabelle
  imports Complex_Main "HOL-Library.Word"
begin

section \<open>Primitive types of the Go program\<close>

subsection \<open>float64\<close>

text \<open>
  The cost fields are Go \<open>float64\<close> values. A finite float64 is a rational number, and
  every arithmetic operation of the program (\<open>+\<close>, \<open>*\<close>, \<open>/\<close>, the conversion
  \<open>float64(n)\<close>) returns the exact result rounded to the nearest representable value,
  ties to the even significand (IEEE 754 binary64: 53 significant bits, least exponent
  \<open>-1022\<close>, so that the spacing of representable values near \<open>q\<close> is
  \<open>2 ^ (max \<lfloor>log\<^sub>2 |q|\<rfloor> (-1022) - 52)\<close>). Infinities and NaN are not modelled: the
  operations below are the program's for results below \<open>2 ^ 1024\<close> in magnitude and for
  non-zero divisors, which is all the program computes with 64-bit token counts and the
  prices of its table.
\<close>

type_synonym float64 = rat

function bitlen :: "int \<Rightarrow> int" where
  "bitlen n = (if n \<le> 0 then 0 else 1 + bitlen (n div 2))"
  by pat_completeness auto
termination
  by (relation "measure nat") auto

declare bitlen.simps [simp del]

function pow2 :: "int \<Rightarrow> rat" where
  "pow2 e = (if e = 0 then 1 else if e < 0 then pow2 (e + 1) / 2 else 2 * pow2 (e - 1))"
  by pat_completeness auto
termination
  by (relation "measure (\<lambda>e. nat \<bar>e\<bar>)") auto

declare pow2.simps [simp del]

definition ilog2 :: "rat \<Rightarrow> int" where
  "ilog2 q =
     (let (a, b) = quotient_of \<bar>q\<bar>;
          e = bitlen a - bitlen b
      in if pow2 e \<le> \<bar>q\<bar> then e else e - 1)"

definition round_half_even :: "rat \<Rightarrow> int" where
  "round_half_even q =
     (let n = \<lfloor>q\<rfloor>; r = q - of_int n
      in if r < 1 / 2 then n else if 1 / 2 < r then n + 1
         else if n mod 2 = 0 then n else n + 1)"

definition round64 :: "rat \<Rightarrow> float64" where
  "round64 q =
     (if q = 0 then 0
      else let e = max (ilog2 q) (- 1022) - 52
           in of_int (round_half_even (q / pow2 e)) * pow2 e)"

definition fadd :: "float64 \<Rightarrow> float64 \<Rightarrow> float64" where
  "fadd x y = round64 (x + y)"

definition fmul :: "float64 \<Rightarrow> float64 \<Rightarrow> float64" where
  "fmul x y = round64 (x * y)"

definition fdiv :: "float64 \<Rightarrow> float64 \<Rightarrow> float64" where
  "fdiv x y = round64 (x / y)"

text \<open>
  Go lets a build fuse \<open>x * y + z\<close> into one operation that rounds once, also when the
  product was assigned to a variable before, as long as no explicit conversion
  \<open>float64(\<dots>)\<close> stands between (builds for arm64 and for \<open>GOAMD64=v3\<close> do). The only sum of
  the program with a product as operand is \<open>inputCost + outputCost\<close>, where both operands
  are products: a build computes it unfused, or fuses the input product, or fuses the
  output product.
\<close>

definition ffma :: "float64 \<Rightarrow> float64 \<Rightarrow> float64 \<Rightarrow> float64" where
  "ffma x y z = round64 (x * y + z)"

datatype fusion = Unfused | FusedInput | FusedOutput

subsection \<open>int\<close>

text \<open>
  Go's \<open>int\<close> is a 64-bit two's complement integer on the platforms the program is built
  for: token counts are \<open>64 word\<close>, \<open>+\<close> wraps, \<open>sint\<close> reads the signed value.
\<close>

type_synonym go_int = "64 word"

definition float64_of_int :: "go_int \<Rightarrow> float64" where
  "float64_of_int n = round64 (of_int (sint n))"

subsection \<open>Strings and errors\<close>

text \<open>
  Go strings are byte sequences, as \<open>string\<close> is. The only thing the program does with an
  \<open>error\<close> is to test it against \<open>nil\<close> and to read its message (\<open>err.Error()\<close>): an
  error value is its message, and \<open>nil\<close> is \<open>None\<close>.
\<close>

type_synonym go_error = "string option"

fun hasPrefix :: "string \<Rightarrow> string \<Rightarrow> bool" where
  "hasPrefix s [] = True"
| "hasPrefix [] (p # ps) = False"
| "hasPrefix (c # s) (p # ps) = (c = p \<and> hasPrefix s ps)"

text \<open>\<open>strings.Contains(s, substr)\<close>: \<open>substr\<close> occurs in \<open>s\<close> at some position.\<close>

fun strings_Contains :: "string \<Rightarrow> string \<Rightarrow> bool" where
  "strings_Contains [] substr = (substr = [])"
| "strings_Contains (c # s) substr = (hasPrefix (c # s) substr \<or> strings_Contains s substr)"

text \<open>The verb \<open>%d\<close> of \<open>fmt\<close>: an integer in decimal.\<close>

function showNat :: "nat \<Rightarrow> string" where
  "showNat n = (if n < 10 then [''0123456789'' ! n]
                else showNat (n div 10) @ [''0123456789'' ! (n mod 10)])"
  by pat_completeness auto
termination
  by (relation "measure id") auto

declare showNat.simps [simp del]

definition showInt :: "int \<Rightarrow> string" where
  "showInt i = (if i < 0 then CHR ''-'' # showNat (nat (- i)) else showNat (nat i))"

section \<open>Data model (the type declarations of package main)\<close>

text \<open>
  \<open>time.Time\<close> and the rendering of a \<open>time.Duration\<close> are values read from the clock:
  a time stamp is an integer (nanoseconds), a rendered duration is a string.
\<close>

type_synonym time_Time = int

record Config =
  APIKey :: string
  ModelName :: string
  PDFPath :: string

record ChunkAnalysis =
  ChunkNumber :: int
  StartPage :: int
  EndPage :: int
  Analysis :: string
  InputTokens :: go_int
  OutputTokens :: go_int
  InputCost :: float64
  OutputCost :: float64
  TotalCost :: float64
  ProcessingTime :: string
  Error :: string
  Timestamp :: time_Time

record AnthropicPricing =
  InputPricePerMTokens :: float64
  OutputPricePerMTokens :: float64

record ChunkInfo =
  Path :: string
  ChunkStartPage :: int
  ChunkEndPage :: int

record FullAnalysisResult =
  ResultPDFPath :: string
  TotalPages :: int
  TotalChunks :: int
  Chunks :: "ChunkAnalysis list"
  TotalInputTokens :: go_int
  TotalOutputTokens :: go_int
  TotalInputCost :: float64
  TotalOutputCost :: float64
  ResultTotalCost :: float64
  ResultProcessingTime :: string
  GeneratedAt :: time_Time

text \<open>
  Page numbers, chunk numbers and counts are bounded by the length of the chunk slice, so
  they are \<open>int\<close>; the field \<open>Consolidated\<close> of \<open>FullAnalysisResult\<close> is always \<open>nil\<close> and
  is left out. The fields \<open>StartPage\<close>, \<open>EndPage\<close> of \<open>ChunkInfo\<close> and \<open>PDFPath\<close>,
  \<open>TotalCost\<close>, \<open>ProcessingTime\<close> of \<open>FullAnalysisResult\<close> carry a prefix, since a record
  field is a global name.
\<close>

section \<open>config.go\<close>

definition ModelPricing :: "string \<rightharpoonup> AnthropicPricing" where
  "ModelPricing =
     [''claude-3-5-haiku-20241022'' \<mapsto>
        \<lparr>InputPricePerMTokens = 25 / 100, OutputPricePerMTokens = 125 / 100\<rparr>,
      ''claude-3-haiku-20240307'' \<mapsto>
        \<lparr>InputPricePerMTokens = 25 / 100, OutputPricePerMTokens = 125 / 100\<rparr>,
      ''claude-3-5-sonnet-20241022'' \<mapsto>
        \<lparr>InputPricePerMTokens = 3, OutputPricePerMTokens = 15\<rparr>,
      ''claude-3-opus-20240229'' \<mapsto>
        \<lparr>InputPricePerMTokens = 15, OutputPricePerMTokens = 75\<rparr>]"

text \<open>Reading a Go map at a key it does not hold gives the zero value of the element type.\<close>

definition zeroPricing :: AnthropicPricing where
  "zeroPricing = \<lparr>InputPricePerMTokens = 0, OutputPricePerMTokens = 0\<rparr>"

definition mapIndex :: "(string \<rightharpoonup> AnthropicPricing) \<Rightarrow> string \<Rightarrow> AnthropicPricing" where
  "mapIndex m k = (case m k of Some v \<Rightarrow> v | None \<Rightarrow> zeroPricing)"

definition GetPricing :: "string \<Rightarrow> AnthropicPricing" where
  "GetPricing modelName =
     (case ModelPricing modelName of
        Some pricing \<Rightarrow> pricing
      | None \<Rightarrow> mapIndex ModelPricing ''claude-3-5-haiku-20241022'')"

section \<open>api.go\<close>

text \<open>
  \<open>analyzeChunk\<close> reads the chunk file, builds the request, sends it and parses the answer.
  Its arguments flow only into calls of the operating system, the HTTP client and the JSON
  library; \<open>call_env\<close> holds what those calls return in one invocation, an error message
  on the left or the value on the right.
\<close>

record apiResponse =
  Content :: "string list"
  Usage_InputTokens :: go_int
  Usage_OutputTokens :: go_int

record http_Response =
  StatusCode :: int
  ReadAll_Body :: "string + string"

record call_env =
  os_ReadFile :: "string + string"
  json_Marshal :: "string + string"
  http_NewRequest :: "string + unit"
  client_Do :: "string + http_Response"
  json_Unmarshal :: "string \<Rightarrow> string + apiResponse"

type_synonym response = "string \<times> go_int \<times> go_int \<times> go_error"

definition analyzeChunk :: "call_env \<Rightarrow> response" where
  "analyzeChunk env =
     (case os_ReadFile env of
        Inl err \<Rightarrow> ('''', 0, 0, Some (''error reading PDF chunk: '' @ err))
      | Inr pdfBytes \<Rightarrow>
     (case json_Marshal env of
        Inl err \<Rightarrow> ('''', 0, 0, Some (''error marshaling request: '' @ err))
      | Inr jsonData \<Rightarrow>
     (case http_NewRequest env of
        Inl err \<Rightarrow> ('''', 0, 0, Some (''error creating request: '' @ err))
      | Inr req \<Rightarrow>
     (case client_Do env of
        Inl err \<Rightarrow> ('''', 0, 0, Some (''error making request: '' @ err))
      | Inr resp \<Rightarrow>
     (case ReadAll_Body resp of
        Inl err \<Rightarrow> ('''', 0, 0, Some (''error reading response: '' @ err))
      | Inr body \<Rightarrow>
     if StatusCode resp \<noteq> 200
     then ('''', 0, 0,
           Some (''API error (status '' @ showInt (StatusCode resp) @ ''): '' @ body))
     else
     (case json_Unmarshal env body of
        Inl err \<Rightarrow> ('''', 0, 0, Some (''error parsing response: '' @ err))
      | Inr apiResponse \<Rightarrow>
          (let analysis = (case Content apiResponse of [] \<Rightarrow> '''' | text # _ \<Rightarrow> text)
           in (analysis, Usage_InputTokens apiResponse, Usage_OutputTokens apiResponse,
               None))))))))"

section \<open>main.go: one worker\<close>

subsection \<open>The retry loop\<close>

text \<open>
  \<open>time.Duration\<close> is a 64-bit count of nanoseconds. The loop calls the analysis function
  and sleeps; \<open>action\<close> records both, in order. The analysis function of a unit is given
  by what it returns at each attempt.
\<close>

type_synonym time_Duration = "64 word"

definition Second :: time_Duration where
  "Second = 1000000000"

datatype action = Call int | Sleep time_Duration

definition isRateLimit :: "string \<Rightarrow> bool" where
  "isRateLimit msg \<longleftrightarrow> strings_Contains msg ''rate_limit'' \<or> strings_Contains msg ''429''"

text \<open>
  What the body of the loop does once the call of \<open>attempt\<close> has returned \<open>r\<close>: leave the
  loop (\<open>break\<close>), sleep and \<open>continue\<close>, or reach the end of the body. The waiting time is
  \<open>retryDelay * time.Duration(1<<attempt)\<close>.
\<close>

datatype ctl = Break | Backoff time_Duration | EndOfBody

definition afterCall :: "int \<Rightarrow> time_Duration \<Rightarrow> int \<Rightarrow> response \<Rightarrow> ctl" where
  "afterCall maxRetries retryDelay attempt r =
     (case snd (snd (snd r)) of
        None \<Rightarrow> Break
      | Some err \<Rightarrow>
          if isRateLimit err then
            (if attempt < maxRetries - 1
             then Backoff (retryDelay * push_bit (nat attempt) 1)
             else EndOfBody)
          else Break)"

function retryLoop ::
  "int \<Rightarrow> time_Duration \<Rightarrow> (int \<Rightarrow> response) \<Rightarrow> int \<Rightarrow> response \<Rightarrow> action list
     \<Rightarrow> response \<times> action list" where
  "retryLoop maxRetries retryDelay f attempt vars trace =
     (if attempt < maxRetries then
        (let r = f attempt; trace1 = trace @ [Call attempt]
         in case afterCall maxRetries retryDelay attempt r of
              Break \<Rightarrow> (r, trace1)
            | Backoff waitTime \<Rightarrow>
                retryLoop maxRetries retryDelay f (attempt + 1) r (trace1 @ [Sleep waitTime])
            | EndOfBody \<Rightarrow> retryLoop maxRetries retryDelay f (attempt + 1) r trace1)
      else (vars, trace))"
  by pat_completeness auto
termination
  by (relation "measure (\<lambda>(maxRetries, retryDelay, f, attempt, vars, trace).
        nat (maxRetries - attempt))") auto

declare retryLoop.simps [simp del]

text \<open>The variables \<open>analysis\<close>, \<open>inputTokens\<close>, \<open>outputTokens\<close>, \<open>err\<close> before the loop.\<close>

definition zeroResponse :: response where
  "zeroResponse = ('''', 0, 0, None)"

text \<open>The constants of the worker.\<close>

definition maxRetries :: int where
  "maxRetries = 3"

definition retryDelay :: time_Duration where
  "retryDelay = 2 * Second"

definition maxConcurrent :: nat where
  "maxConcurrent = 4"

subsection \<open>The result of a unit\<close>

text \<open>
  The record the worker stores under the mutex: \<open>dur\<close> is the rendered processing time
  and \<open>now\<close> the time stamp, both read from the clock; \<open>build\<close> is how the build computes
  the sum \<open>inputCost + outputCost\<close>.
\<close>

definition unitResult ::
  "fusion \<Rightarrow> AnthropicPricing \<Rightarrow> nat \<Rightarrow> ChunkInfo \<Rightarrow> response \<Rightarrow> string \<Rightarrow> time_Time \<Rightarrow> ChunkAnalysis" where
  "unitResult build pricing index chunk r dur now =
     (case r of (analysis, inputTokens, outputTokens, err) \<Rightarrow>
        let inputCost =
              fmul (fdiv (float64_of_int inputTokens) 1000000) (InputPricePerMTokens pricing);
            outputCost =
              fmul (fdiv (float64_of_int outputTokens) 1000000) (OutputPricePerMTokens pricing);
            result =
              \<lparr>ChunkNumber = int index + 1,
               StartPage = ChunkStartPage chunk + 1,
               EndPage = ChunkEndPage chunk + 1,
               Analysis = analysis,
               InputTokens = inputTokens,
               OutputTokens = outputTokens,
               InputCost = inputCost,
               OutputCost = outputCost,
               TotalCost =
                 (case build of
                    Unfused \<Rightarrow> fadd inputCost outputCost
                  | FusedInput \<Rightarrow>
                      ffma (fdiv (float64_of_int inputTokens) 1000000)
                        (InputPricePerMTokens pricing) outputCost
                  | FusedOutput \<Rightarrow>
                      ffma (fdiv (float64_of_int outputTokens) 1000000)
                        (OutputPricePerMTokens pricing) inputCost),
               ProcessingTime = dur,
               Error = '''',
               Timestamp = now\<rparr>
        in case err of None \<Rightarrow> result | Some e \<Rightarrow> result\<lparr>Error := e\<rparr>)"

subsection \<open>Vocabulary for the outcome of one attempt\<close>

text \<open>
  An attempt succeeds when the error is \<open>nil\<close>; a failure is transient when the loop's own
  test on the message holds (\<open>rate_limit\<close> or \<open>429\<close> occurs in it) and permanent otherwise.
\<close>

definition succeeded :: "response \<Rightarrow> bool" where
  "succeeded r \<longleftrightarrow> snd (snd (snd r)) = None"

definition transient :: "response \<Rightarrow> bool" where
  "transient r \<longleftrightarrow> (case snd (snd (snd r)) of None \<Rightarrow> False | Some err \<Rightarrow> isRateLimit err)"

definition permanent :: "response \<Rightarrow> bool" where
  "permanent r \<longleftrightarrow> (case snd (snd (snd r)) of None \<Rightarrow> False | Some err \<Rightarrow> \<not> isRateLimit err)"

text \<open>
  The actions of a worker that is retried \<open>n\<close> times from attempt \<open>a\<close> on: a call, the
  backoff \<open>d * 2 ^ a\<close>, the next call, the doubled backoff, and so on up to the last call.
\<close>

fun schedule :: "time_Duration \<Rightarrow> int \<Rightarrow> nat \<Rightarrow> action list" where
  "schedule d a 0 = [Call a]"
| "schedule d a (Suc n) = Call a # Sleep (d * 2 ^ nat a) # schedule d (a + 1) n"

section \<open>main.go: the dispatcher\<close>

text \<open>
  A batch is what the goroutines of \<open>main\<close> share: the chunks, the pricing entry, the
  capacity of the semaphore channel, the constants of the retry loop, and the analysis
  function, given by what \<open>analyzeChunk\<close> returns for the unit \<open>index\<close> at each attempt;
  \<open>fusing\<close> is the build's way of adding the two costs of a unit.
\<close>

record batch =
  units :: "ChunkInfo list"
  price :: AnthropicPricing
  capacity :: nat
  attempts :: int
  backoff :: time_Duration
  analyze :: "nat \<Rightarrow> int \<Rightarrow> response"
  fusing :: fusion

definition mainBatch ::
  "fusion \<Rightarrow> string \<Rightarrow> ChunkInfo list \<Rightarrow> (nat \<Rightarrow> int \<Rightarrow> response) \<Rightarrow> batch" where
  "mainBatch build modelName chunks f =
     \<lparr>units = chunks, price = GetPricing modelName, capacity = maxConcurrent,
      attempts = maxRetries, backoff = retryDelay, analyze = f, fusing = build\<rparr>"

text \<open>
  Where a goroutine stands: not yet started by the \<open>for\<close> loop; blocked on the send into
  the semaphore; inside the call of \<open>analyzeChunk\<close> for an attempt; asleep after an
  attempt; out of the loop with the final values of its variables, before the mutex;
  past the write, with the two deferred calls (\<open><-semaphore\<close>, then \<open>wg.Done()\<close>) ahead;
  between them; returned.
\<close>

datatype gstate =
    NotStarted
  | Acquiring
  | Calling int
  | Sleeping int response
  | Writing response
  | Releasing
  | Finishing
  | Finished

text \<open>The head of the \<open>for\<close> loop: \<open>attempt < maxRetries\<close>.\<close>

definition loopHead :: "batch \<Rightarrow> int \<Rightarrow> response \<Rightarrow> gstate" where
  "loopHead b attempt vars = (if attempt < attempts b then Calling attempt else Writing vars)"

text \<open>
  The state of the dispatcher: the index of the \<open>for\<close> loop over the chunks, whether
  \<open>wg.Wait()\<close> has returned, the counter of the wait group, the number of elements in the
  semaphore channel, the goroutines, and the slice \<open>results\<close>.
\<close>

record dstate =
  spawned :: nat
  joined :: bool
  wg :: int
  semaphore :: nat
  goroutines :: "gstate list"
  results :: "ChunkAnalysis list"

definition zeroChunkAnalysis :: ChunkAnalysis where
  "zeroChunkAnalysis =
     \<lparr>ChunkNumber = 0, StartPage = 0, EndPage = 0, Analysis = '''', InputTokens = 0,
      OutputTokens = 0, InputCost = 0, OutputCost = 0, TotalCost = 0,
      ProcessingTime = '''', Error = '''', Timestamp = 0\<rparr>"

text \<open>\<open>results := make([]ChunkAnalysis, len(chunks))\<close>, an empty channel, no goroutine.\<close>

definition init :: "batch \<Rightarrow> dstate" where
  "init b =
     \<lparr>spawned = 0, joined = False, wg = 0, semaphore = 0,
      goroutines = replicate (length (units b)) NotStarted,
      results = replicate (length (units b)) zeroChunkAnalysis\<rparr>"

text \<open>
  The steps of an execution. \<open>Spawn\<close> is one round of the \<open>for\<close> loop (\<open>wg.Add(1)\<close> and
  the \<open>go\<close> statement); \<open>Acquire i\<close> is the send into the channel, possible while it holds
  fewer elements than its capacity; \<open>Return i\<close> is the return of the call in flight in
  goroutine \<open>i\<close>, followed by the loop's decision; \<open>Wake i\<close> ends its sleep; \<open>Write i dur now\<close>
  is the section under the mutex, which stores the result at \<open>results[index]\<close>;
  \<open>Release i\<close> and \<open>Done i\<close> are the deferred calls; \<open>Join\<close> is the return of \<open>wg.Wait()\<close>.
  A step that cannot be taken in a state gives \<open>None\<close>.
\<close>

datatype devent =
    Spawn
  | Acquire nat
  | Return nat
  | Wake nat
  | Write nat string time_Time
  | Release nat
  | Done nat
  | Join

definition pcOf :: "dstate \<Rightarrow> nat \<Rightarrow> gstate option" where
  "pcOf s i = (if i < length (goroutines s) then Some (goroutines s ! i) else None)"

definition goto :: "nat \<Rightarrow> gstate \<Rightarrow> dstate \<Rightarrow> dstate" where
  "goto i g s = s\<lparr>goroutines := (goroutines s)[i := g]\<rparr>"

fun dstep :: "batch \<Rightarrow> devent \<Rightarrow> dstate \<Rightarrow> dstate option" where
  "dstep b Spawn s =
     (if \<not> joined s \<and> spawned s < length (units b) \<and> pcOf s (spawned s) = Some NotStarted
      then Some (goto (spawned s) Acquiring (s\<lparr>spawned := spawned s + 1, wg := wg s + 1\<rparr>))
      else None)"
| "dstep b (Acquire i) s =
     (if pcOf s i = Some Acquiring \<and> semaphore s < capacity b
      then Some (goto i (loopHead b 0 zeroResponse) (s\<lparr>semaphore := semaphore s + 1\<rparr>))
      else None)"
| "dstep b (Return i) s =
     (case pcOf s i of
        Some (Calling attempt) \<Rightarrow>
          (let r = analyze b i attempt
           in case afterCall (attempts b) (backoff b) attempt r of
                Break \<Rightarrow> Some (goto i (Writing r) s)
              | Backoff waitTime \<Rightarrow> Some (goto i (Sleeping attempt r) s)
              | EndOfBody \<Rightarrow> Some (goto i (loopHead b (attempt + 1) r) s))
      | _ \<Rightarrow> None)"
| "dstep b (Wake i) s =
     (case pcOf s i of
        Some (Sleeping attempt r) \<Rightarrow> Some (goto i (loopHead b (attempt + 1) r) s)
      | _ \<Rightarrow> None)"
| "dstep b (Write i dur now) s =
     (case pcOf s i of
        Some (Writing r) \<Rightarrow>
          if i < length (results s) \<and> i < length (units b)
          then Some (goto i Releasing
                 (s\<lparr>results := (results s)[i := unitResult (fusing b) (price b) i (units b ! i) r dur now]\<rparr>))
          else None
      | _ \<Rightarrow> None)"
| "dstep b (Release i) s =
     (if pcOf s i = Some Releasing \<and> 0 < semaphore s
      then Some (goto i Finishing (s\<lparr>semaphore := semaphore s - 1\<rparr>))
      else None)"
| "dstep b (Done i) s =
     (if pcOf s i = Some Finishing
      then Some (goto i Finished (s\<lparr>wg := wg s - 1\<rparr>))
      else None)"
| "dstep b Join s =
     (if \<not> joined s \<and> spawned s = length (units b) \<and> wg s = 0
      then Some (s\<lparr>joined := True\<rparr>)
      else None)"

fun exec :: "batch \<Rightarrow> devent list \<Rightarrow> dstate \<Rightarrow> dstate option" where
  "exec b [] s = Some s"
| "exec b (e # es) s = (case dstep b e s of None \<Rightarrow> None | Some s' \<Rightarrow> exec b es s')"

text \<open>A goroutine holds a slot of the semaphore from its send to its receive.\<close>

fun holding :: "gstate \<Rightarrow> bool" where
  "holding (Calling a) = True"
| "holding (Sleeping a r) = True"
| "holding (Writing r) = True"
| "holding Releasing = True"
| "holding g = False"

fun inFlight :: "gstate \<Rightarrow> bool" where
  "inFlight (Calling a) = True"
| "inFlight g = False"

fun live :: "gstate \<Rightarrow> bool" where
  "live NotStarted = False"
| "live Finished = False"
| "live g = True"

definition count :: "(gstate \<Rightarrow> bool) \<Rightarrow> dstate \<Rightarrow> nat" where
  "count P s = length (filter P (goroutines s))"

text \<open>What the retry loop of unit \<open>i\<close> ends with, run on its own.\<close>

definition outcome :: "batch \<Rightarrow> nat \<Rightarrow> response" where
  "outcome b i = fst (retryLoop (attempts b) (backoff b) (analyze b i) 0 zeroResponse [])"

section \<open>main.go: the totals\<close>

text \<open>The loop over \<open>results\<close> that adds up the four chunk totals, from left to right.\<close>

definition chunkTotals :: "ChunkAnalysis list \<Rightarrow> go_int \<times> go_int \<times> float64 \<times> float64" where
  "chunkTotals rs =
     foldl (\<lambda>(chunkInputTokens, chunkOutputTokens, chunkInputCost, chunkOutputCost) result.
              (chunkInputTokens + InputTokens result,
               chunkOutputTokens + OutputTokens result,
               fadd chunkInputCost (InputCost result),
               fadd chunkOutputCost (OutputCost result)))
       (0, 0, 0, 0) rs"

definition fullResult ::
  "Config \<Rightarrow> int \<Rightarrow> ChunkInfo list \<Rightarrow> ChunkAnalysis list \<Rightarrow> string \<Rightarrow> time_Time
     \<Rightarrow> FullAnalysisResult" where
  "fullResult config totalPages chunks rs dur now =
     (case chunkTotals rs of
        (totalInputTokens, totalOutputTokens, totalInputCost, totalOutputCost) \<Rightarrow>
          \<lparr>ResultPDFPath = PDFPath config,
           TotalPages = totalPages,
           TotalChunks = int (length chunks),
           Chunks = rs,
           TotalInputTokens = totalInputTokens,
           TotalOutputTokens = totalOutputTokens,
           TotalInputCost = totalInputCost,
           TotalOutputCost = totalOutputCost,
           ResultTotalCost = fadd totalInputCost totalOutputCost,
           ResultProcessingTime = dur,
           GeneratedAt = now\<rparr>)"

text \<open>
  What the retry loop of unit \<open>i\<close> ends with when it stands at the head of the loop with
  \<open>attempt\<close> and the variables \<open>vars\<close>.
\<close>

definition finalFrom :: "batch \<Rightarrow> nat \<Rightarrow> int \<Rightarrow> response \<Rightarrow> response" where
  "finalFrom b i attempt vars =
     fst (retryLoop (attempts b) (backoff b) (analyze b i) attempt vars [])"

text \<open>
  The invariant of the dispatcher. Each goroutine is on the way to the outcome of its own
  unit, and once past the write its result is in its own slot of \<open>results\<close>.
\<close>

fun onTrack :: "batch \<Rightarrow> dstate \<Rightarrow> nat \<Rightarrow> gstate \<Rightarrow> bool" where
  "onTrack b s i (Calling a) =
     (a < attempts b \<and> finalFrom b i a zeroResponse = outcome b i)"
| "onTrack b s i (Sleeping a r) = (finalFrom b i (a + 1) r = outcome b i)"
| "onTrack b s i (Writing r) = (r = outcome b i)"
| "onTrack b s i NotStarted = True"
| "onTrack b s i Acquiring = True"
| "onTrack b s i g =
     (\<exists>dur now. results s ! i = unitResult (fusing b) (price b) i (units b ! i) (outcome b i) dur now)"

definition inv :: "batch \<Rightarrow> dstate \<Rightarrow> bool" where
  "inv b s \<longleftrightarrow>
     length (goroutines s) = length (units b) \<and>
     length (results s) = length (units b) \<and>
     spawned s \<le> length (units b) \<and>
     (\<forall>i < length (units b). goroutines s ! i = NotStarted \<longleftrightarrow> spawned s \<le> i) \<and>
     semaphore s = count holding s \<and>
     semaphore s \<le> capacity b \<and>
     wg s = int (count live s) \<and>
     (\<forall>i < length (units b). onTrack b s i (goroutines s ! i)) \<and>
     (joined s \<longrightarrow> wg s = 0 \<and> spawned s = length (units b))"

text \<open>The batch is complete when \<open>wg.Wait()\<close> has returned.\<close>

definition reachable :: "batch \<Rightarrow> dstate \<Rightarrow> bool" where
  "reachable b s \<longleftrightarrow> (\<exists>es. exec b es (init b) = Some s)"

text \<open>
  A bound on the steps a goroutine still has to take, and on those of the whole batch.
\<close>

fun stepsLeft :: "batch \<Rightarrow> gstate \<Rightarrow> nat" where
  "stepsLeft b NotStarted = 7 + 2 * nat (attempts b)"
| "stepsLeft b Acquiring = 6 + 2 * nat (attempts b)"
| "stepsLeft b (Calling a) = 5 + 2 * nat (attempts b - (a + 1))"
| "stepsLeft b (Sleeping a r) = 4 + 2 * nat (attempts b - (a + 1))"
| "stepsLeft b (Writing r) = 3"
| "stepsLeft b Releasing = 2"
| "stepsLeft b Finishing = 1"
| "stepsLeft b Finished = 0"

definition workLeft :: "batch \<Rightarrow> dstate \<Rightarrow> nat" where
  "workLeft b s =
     sum_list (map (stepsLeft b) (goroutines s)) + (if joined s then 0 else 1)"

section \<open>pdf.go and the set-up of main\<close>

text \<open>
  What the operating system and the PDF library answer to the calls of the set-up:
  the command line, the environment variable, \<open>os.Stat\<close>, \<open>os.Open\<close> and
  \<open>api.PageCount\<close> in \<open>getPageCount\<close>, \<open>os.MkdirTemp\<close>, and for the chunk that starts at
  a page \<open>os.Open\<close>, \<open>api.ExtractPages\<close> and the path under which the chunk file is found.
\<close>

record setup_env =
  os_Args :: "string list"
  Getenv_ANTHROPIC_API_KEY :: string
  Stat_IsNotExist :: bool
  os_Open :: "string + unit"
  api_PageCount :: "string + int"
  os_MkdirTemp :: "string + string"
  chunk_Open :: "int \<Rightarrow> string + unit"
  api_ExtractPages :: "int \<Rightarrow> string + unit"
  chunk_Path :: "string \<Rightarrow> int \<Rightarrow> string"

definition getPageCount :: "setup_env \<Rightarrow> int \<times> go_error" where
  "getPageCount env =
     (case os_Open env of
        Inl err \<Rightarrow> (0, Some err)
      | Inr file \<Rightarrow>
          (case api_PageCount env of
             Inl err \<Rightarrow> (0, Some (''error getting page count: '' @ err))
           | Inr pages \<Rightarrow> (pages, None)))"

text \<open>
  The loop of \<open>splitPDFIntoChunks\<close>, from \<open>startPage\<close> on with the chunks collected so far.
  It need not end for a \<open>chunkSize\<close> that is not positive; \<open>None\<close> is then its value.
\<close>

partial_function (option) splitLoop ::
  "setup_env \<Rightarrow> string \<Rightarrow> int \<Rightarrow> int \<Rightarrow> int \<Rightarrow> ChunkInfo list
     \<Rightarrow> (ChunkInfo list \<times> go_error) option" where
  "splitLoop env tempDir chunkSize totalPages startPage chunks =
     (if startPage < totalPages then
        (let endPage = (if startPage + chunkSize > totalPages then totalPages
                        else startPage + chunkSize)
         in case chunk_Open env startPage of
              Inl err \<Rightarrow> Some ([], Some (''error opening PDF: '' @ err))
            | Inr file \<Rightarrow>
                (case api_ExtractPages env startPage of
                   Inl err \<Rightarrow>
                     Some ([], Some (''error extracting pages '' @ showInt (startPage + 1) @
                                     ''-'' @ showInt endPage @ '': '' @ err))
                 | Inr ok \<Rightarrow>
                     splitLoop env tempDir chunkSize totalPages (startPage + chunkSize)
                       (chunks @ [\<lparr>Path = chunk_Path env tempDir startPage,
                                   ChunkStartPage = startPage,
                                   ChunkEndPage = endPage - 1\<rparr>])))
      else Some (chunks, None))"

definition splitPDFIntoChunks ::
  "setup_env \<Rightarrow> string \<Rightarrow> int \<Rightarrow> int \<Rightarrow> (ChunkInfo list \<times> go_error) option" where
  "splitPDFIntoChunks env tempDir chunkSize totalPages =
     splitLoop env tempDir chunkSize totalPages 0 []"

text \<open>
  How a run of \<open>main\<close> ends: \<open>log.Fatal\<close> prints the message and exits with status 1;
  a return from \<open>main\<close> exits with status 0, the result having been printed and saved.
\<close>

datatype exit = Fatal string | Completed FullAnalysisResult

fun exitCode :: "exit \<Rightarrow> int" where
  "exitCode (Fatal msg) = 1"
| "exitCode (Completed r) = 0"

text \<open>
  \<open>main\<close>, for the build, the answers \<open>env\<close> of the set-up, the analysis function \<open>f\<close>, the
  interleaving \<open>es\<close> of the goroutines, and the clock readings of the final result. The
  value is \<open>None\<close> when \<open>es\<close> is not an execution of the dispatcher up to the return of
  \<open>wg.Wait()\<close>. Loading \<open>.env\<close> and printing are left out.
\<close>

definition main ::
  "fusion \<Rightarrow> setup_env \<Rightarrow> (nat \<Rightarrow> int \<Rightarrow> response) \<Rightarrow> devent list \<Rightarrow> string \<Rightarrow> time_Time
     \<Rightarrow> exit option" where
  "main build env f es dur now =
     (if length (os_Args env) < 2
      then Some (Fatal (''Usage: go run main.go <pdf-file>'' @ [CHR 0x0A] @
             ''Example: go run main.go ../design-analysis/v6truboEngine.pdf''))
      else
        let config = \<lparr>APIKey = Getenv_ANTHROPIC_API_KEY env,
                      ModelName = ''claude-3-5-haiku-20241022'',
                      PDFPath = os_Args env ! 1\<rparr>
        in if APIKey config = ''''
           then Some (Fatal ''Error: ANTHROPIC_API_KEY not found in environment variables'')
           else if Stat_IsNotExist env
           then Some (Fatal (''Error: PDF file not found: '' @ PDFPath config))
           else
             (case getPageCount env of
                (totalPages, Some err) \<Rightarrow> Some (Fatal (''Error getting page count: '' @ err))
              | (totalPages, None) \<Rightarrow>
                  (case os_MkdirTemp env of
                     Inl err \<Rightarrow> Some (Fatal (''Error creating temp directory: '' @ err))
                   | Inr tempDir \<Rightarrow>
                       (case splitPDFIntoChunks env tempDir 1 totalPages of
                          None \<Rightarrow> None
                        | Some (chunks, Some err) \<Rightarrow>
                            Some (Fatal (''Error splitting PDF: '' @ err))
                        | Some (chunks, None) \<Rightarrow>
                            (let b = mainBatch build (ModelName config) chunks f
                             in case exec b es (init b) of
                                  None \<Rightarrow> None
                                | Some s \<Rightarrow>
                                    if joined s
                                    then Some (Completed
                                           (fullResult config totalPages chunks (results s)
                                              dur now))
                                    else None)))))"

section \<open>Concrete runs\<close>

text \<open>Answers of the remote service: a page analysed, a throttled call, a failure.\<close>

definition env_ok :: call_env where
  "env_ok =
     \<lparr>os_ReadFile = Inr ''%PDF-1.4'', json_Marshal = Inr ''{}'', http_NewRequest = Inr (),
      client_Do = Inr \<lparr>StatusCode = 200, ReadAll_Body = Inr ''{}''\<rparr>,
      json_Unmarshal = (\<lambda>body. Inr \<lparr>Content = [''# Page 1''], Usage_InputTokens = 1250,
                                        Usage_OutputTokens = 850\<rparr>)\<rparr>"

definition env_429 :: call_env where
  "env_429 =
     \<lparr>os_ReadFile = Inr ''%PDF-1.4'', json_Marshal = Inr ''{}'', http_NewRequest = Inr (),
      client_Do = Inr \<lparr>StatusCode = 429, ReadAll_Body = Inr ''rate_limit_error''\<rparr>,
      json_Unmarshal = (\<lambda>body. Inl ''unexpected end of JSON input'')\<rparr>"

definition env_500 :: call_env where
  "env_500 =
     \<lparr>os_ReadFile = Inr ''%PDF-1.4'', json_Marshal = Inr ''{}'', http_NewRequest = Inr (),
      client_Do = Inr \<lparr>StatusCode = 500, ReadAll_Body = Inr ''internal error''\<rparr>,
      json_Unmarshal = (\<lambda>body. Inl ''unexpected end of JSON input'')\<rparr>"

text \<open>
  A request the service refuses for good, with status 400: the page is too long. The
  number of tokens in the answer happens to contain the digits 429.
\<close>

definition env_400 :: call_env where
  "env_400 =
     \<lparr>os_ReadFile = Inr ''%PDF-1.4'', json_Marshal = Inr ''{}'', http_NewRequest = Inr (),
      client_Do = Inr \<lparr>StatusCode = 400,
        ReadAll_Body = Inr ''invalid_request_error: prompt is too long: 204290 tokens > 200000 maximum''\<rparr>,
      json_Unmarshal = (\<lambda>body. Inl ''unexpected end of JSON input'')\<rparr>"

definition tooLong :: "int \<Rightarrow> response" where
  "tooLong attempt = analyzeChunk env_400"

definition flaky :: "int \<Rightarrow> response" where
  "flaky attempt = (if attempt < 2 then analyzeChunk env_429 else analyzeChunk env_ok)"


definition broken :: "int \<Rightarrow> response" where
  "broken attempt = analyzeChunk env_500"

text \<open>
  A batch of two pages behind a semaphore of capacity 1: page 1 fails for good, page 2
  succeeds at once.
\<close>

definition twoPages :: "ChunkInfo list" where
  "twoPages =
     [\<lparr>Path = ''chunk_1.pdf'', ChunkStartPage = 0, ChunkEndPage = 0\<rparr>,
      \<lparr>Path = ''chunk_2.pdf'', ChunkStartPage = 1, ChunkEndPage = 1\<rparr>]"

definition smallBatch :: batch where
  "smallBatch =
     \<lparr>units = twoPages, price = GetPricing ''claude-3-5-haiku-20241022'', capacity = 1,
      attempts = maxRetries, backoff = retryDelay,
      analyze = (\<lambda>i attempt. if i = 0 then broken attempt else analyzeChunk env_ok),
      fusing = Unfused\<rparr>"

text \<open>An execution in which page 2 is analysed and stored before page 1.\<close>

definition page2First :: "devent list" where
  "page2First =
     [Spawn, Spawn, Acquire 1, Return 1, Write 1 ''1.2s'' 10, Release 1, Acquire 0,
      Done 1, Return 0, Write 0 ''0.3s'' 20, Release 0, Done 0, Join]"

text \<open>The two unit results of the cost example, and their totals.\<close>

definition examplePrice :: AnthropicPricing where
  "examplePrice = \<lparr>InputPricePerMTokens = 1, OutputPricePerMTokens = 2\<rparr>"

definition exampleResults :: "fusion \<Rightarrow> ChunkAnalysis list" where
  "exampleResults build =
     [unitResult build examplePrice 0 (twoPages ! 0) (''# Page 1'', 100, 50, None) ''1s'' 10,
      unitResult build examplePrice 1 (twoPages ! 1) (''# Page 2'', 200, 100, None) ''1s'' 20]"

text \<open>The same two units at the prices of the model that \<open>main\<close> uses.\<close>

definition shippedResults :: "fusion \<Rightarrow> ChunkAnalysis list" where
  "shippedResults build =
     [unitResult build (GetPricing ''claude-3-5-haiku-20241022'') 0 (twoPages ! 0)
        (''# Page 1'', 100, 50, None) ''1s'' 10,
      unitResult build (GetPricing ''claude-3-5-haiku-20241022'') 1 (twoPages ! 1)
        (''# Page 2'', 200, 100, None) ''1s'' 20]"

definition exampleConfig :: Config where
  "exampleConfig =
     \<lparr>APIKey = ''sk-ant'', ModelName = ''claude-3-5-haiku-20241022'', PDFPath = ''doc.pdf''\<rparr>"

text \<open>A document of zero pages, otherwise in order.\<close>

definition zeroPagesEnv :: setup_env where
  "zeroPagesEnv =
     \<lparr>os_Args = [''main'', ''doc.pdf''], Getenv_ANTHROPIC_API_KEY = ''sk-ant'',
      Stat_IsNotExist = False, os_Open = Inr (), api_PageCount = Inr 0,
      os_MkdirTemp = Inr ''/tmp/pdf-chunks-1'', chunk_Open = (\<lambda>p. Inr ()),
      api_ExtractPages = (\<lambda>p. Inr ()),
      chunk_Path = (\<lambda>dir p. dir @ ''/chunk_'' @ showInt (p + 1) @ ''.pdf'')\<rparr>"


section \<open>Properties\<close>

subsection \<open>The price table\<close>

lemma dom_ModelPricing:
  "dom ModelPricing =
     {''claude-3-5-haiku-20241022'', ''claude-3-haiku-20240307'',
      ''claude-3-5-sonnet-20241022'', ''claude-3-opus-20240229''}"
  by (auto simp: ModelPricing_def split: if_splits)

text \<open>
  C9. \<open>GetPricing\<close> returns a pricing entry for every model identifier: the entry of the
  table \<open>ModelPricing\<close> when the table holds the identifier, and otherwise the entry of
  \<open>claude-3-5-haiku-20241022\<close>, which is 0.25 per million input tokens and 1.25 per
  million output tokens. No branch of it fails: the second map read is of a key the table
  holds.
\<close>

theorem GetPricing_total:
  "GetPricing modelName =
     (case ModelPricing modelName of
        Some pricing \<Rightarrow> pricing
      | None \<Rightarrow> \<lparr>InputPricePerMTokens = 25 / 100, OutputPricePerMTokens = 125 / 100\<rparr>)"
  by (simp add: GetPricing_def mapIndex_def ModelPricing_def)

theorem GetPricing_total_witness:
  "GetPricing ''claude-3-opus-20240229'' =
     \<lparr>InputPricePerMTokens = 15, OutputPricePerMTokens = 75\<rparr> \<and>
   GetPricing ''some-unknown-model'' =
     \<lparr>InputPricePerMTokens = 25 / 100, OutputPricePerMTokens = 125 / 100\<rparr>"
  using GetPricing_total [of "''claude-3-opus-20240229''"]
    GetPricing_total [of "''some-unknown-model''"]
  by (simp add: ModelPricing_def)

subsection \<open>The retry loop\<close>

lemma afterCall_cases:
  "afterCall R d a r =
     (if succeeded r \<or> permanent r then Break
      else if a < R - 1 then Backoff (d * 2 ^ nat a) else EndOfBody)"
  by (simp add: afterCall_def succeeded_def permanent_def push_bit_eq_mult split: option.splits)

lemma retryLoop_done: "\<not> a < R \<Longrightarrow> retryLoop R d f a v tr = (v, tr)"
  by (simp add: retryLoop.simps)

lemma retryLoop_break:
  "a < R \<Longrightarrow> succeeded (f a) \<or> permanent (f a) \<Longrightarrow>
   retryLoop R d f a v tr = (f a, tr @ [Call a])"
  by (subst retryLoop.simps) (simp add: afterCall_cases)

lemma retryLoop_last:
  "a < R \<Longrightarrow> \<not> a < R - 1 \<Longrightarrow> retryLoop R d f a v tr = (f a, tr @ [Call a])"
  by (subst retryLoop.simps) (simp add: afterCall_cases Let_def retryLoop_done)

lemma retryLoop_backoff:
  "a < R - 1 \<Longrightarrow> transient (f a) \<Longrightarrow>
   retryLoop R d f a v tr =
     retryLoop R d f (a + 1) (f a) (tr @ [Call a, Sleep (d * 2 ^ nat a)])"
  by (subst retryLoop.simps)
    (auto simp add: afterCall_cases succeeded_def permanent_def transient_def split: option.splits)

lemma outcome_trichotomy: "succeeded r \<or> permanent r \<or> transient r"
  by (auto simp: succeeded_def permanent_def transient_def split: option.splits)

lemma retryLoop_transients:
  "\<forall>j. a \<le> j \<and> j < a + int n \<longrightarrow> transient (f j) \<Longrightarrow> a + int n < R \<Longrightarrow> 0 \<le> a \<Longrightarrow>
   succeeded (f (a + int n)) \<or> permanent (f (a + int n)) \<or> a + int n = R - 1 \<Longrightarrow>
   retryLoop R d f a v tr = (f (a + int n), tr @ schedule d a n)"
proof (induction n arbitrary: a v tr)
  case 0
  then show ?case
    by (auto simp: retryLoop_break retryLoop_last)
next
  case (Suc n)
  have t: "transient (f a)" using Suc.prems(1) by simp
  have lt: "a < R - 1" using Suc.prems(2) by simp
  have eq: "a + 1 + int n = a + int (Suc n)" by simp
  have "retryLoop R d f (a + 1) (f a) (tr @ [Call a, Sleep (d * 2 ^ nat a)]) =
        (f (a + 1 + int n), (tr @ [Call a, Sleep (d * 2 ^ nat a)]) @ schedule d (a + 1) n)"
  proof (rule Suc.IH)
    show "\<forall>j. a + 1 \<le> j \<and> j < a + 1 + int n \<longrightarrow> transient (f j)"
      using Suc.prems(1) by simp
    show "a + 1 + int n < R" using Suc.prems(2) by simp
    show "0 \<le> a + 1" using Suc.prems(3) by simp
    show "succeeded (f (a + 1 + int n)) \<or> permanent (f (a + 1 + int n)) \<or> a + 1 + int n = R - 1"
      using Suc.prems(4) unfolding eq .
  qed
  then show ?case
    using retryLoop_backoff [of a R f d v tr, OF lt t] unfolding eq by simp
qed

lemma retryLoop_schedule:
  "a < R \<Longrightarrow> 0 \<le> a \<Longrightarrow>
   \<exists>n. a + int n < R \<and> retryLoop R d f a v tr = (f (a + int n), tr @ schedule d a n) \<and>
       (\<forall>j. a \<le> j \<and> j < a + int n \<longrightarrow> transient (f j)) \<and>
       (succeeded (f (a + int n)) \<or> permanent (f (a + int n)) \<or> a + int n = R - 1)"
proof (induction "nat (R - a)" arbitrary: a v tr)
  case 0
  then show ?case by simp
next
  case (Suc m)
  show ?case
  proof (cases "succeeded (f a) \<or> permanent (f a) \<or> a = R - 1")
    case True
    then have "retryLoop R d f a v tr = (f a, tr @ schedule d a 0)"
      using Suc.prems retryLoop_break [of a R f d v tr] retryLoop_last [of a R d f v tr] by auto
    then show ?thesis using Suc.prems True by (intro exI [of _ 0]) auto
  next
    case False
    then have t: "transient (f a)" and lt: "a < R - 1"
      using outcome_trichotomy [of "f a"] Suc.prems by auto
    have "m = nat (R - (a + 1))" using Suc.hyps(2) by simp
    from Suc.hyps(1) [OF this, of "f a" "tr @ [Call a, Sleep (d * 2 ^ nat a)]"] lt Suc.prems
    obtain n where n: "a + 1 + int n < R"
      "retryLoop R d f (a + 1) (f a) (tr @ [Call a, Sleep (d * 2 ^ nat a)]) =
         (f (a + 1 + int n), (tr @ [Call a, Sleep (d * 2 ^ nat a)]) @ schedule d (a + 1) n)"
      "\<forall>j. a + 1 \<le> j \<and> j < a + 1 + int n \<longrightarrow> transient (f j)"
      "succeeded (f (a + 1 + int n)) \<or> permanent (f (a + 1 + int n)) \<or> a + 1 + int n = R - 1"
      by auto
    have all: "\<forall>j. a \<le> j \<and> j < a + int (Suc n) \<longrightarrow> transient (f j)"
    proof (intro allI impI)
      fix j assume "a \<le> j \<and> j < a + int (Suc n)"
      then have "j = a \<or> (a + 1 \<le> j \<and> j < a + 1 + int n)" by auto
      then show "transient (f j)" using t n(3) by auto
    qed
    have eq: "a + 1 + int n = a + int (Suc n)" by simp
    show ?thesis
      using n(1,2,4) all retryLoop_backoff [of a R f d v tr, OF lt t] unfolding eq
      by (intro exI [of _ "Suc n"]) simp
  qed
qed

subsection \<open>The dispatcher\<close>

lemma fst_retryLoop_trace:
  "fst (retryLoop R d f a v tr) = fst (retryLoop R d f a v tr')"
proof (induction R d f a v tr arbitrary: tr' rule: retryLoop.induct)
  case (1 R d f a v tr)
  show ?case
  proof (cases "a < R")
    case False
    then show ?thesis by (simp add: retryLoop_done)
  next
    case True
    show ?thesis
    proof (cases "afterCall R d a (f a)")
      case Break
      then show ?thesis using True
        by (subst retryLoop.simps, subst (2) retryLoop.simps) simp
    next
      case (Backoff w)
      then show ?thesis using True "1.IH"(1) [OF True refl refl Backoff]
        by (subst retryLoop.simps, subst (2) retryLoop.simps) simp
    next
      case EndOfBody
      then show ?thesis using True "1.IH"(2) [OF True refl refl EndOfBody]
        by (subst retryLoop.simps, subst (2) retryLoop.simps) simp
    qed
  qed
qed

lemma finalFrom_unfold:
  "finalFrom b i a v =
     (if a < attempts b then
        (case afterCall (attempts b) (backoff b) a (analyze b i a) of
           Break \<Rightarrow> analyze b i a
         | Backoff w \<Rightarrow> finalFrom b i (a + 1) (analyze b i a)
         | EndOfBody \<Rightarrow> finalFrom b i (a + 1) (analyze b i a))
      else v)"
  unfolding finalFrom_def
  by (subst retryLoop.simps)
    (auto simp: Let_def split: ctl.splits intro: fst_retryLoop_trace)

lemma finalFrom_vars: "a < attempts b \<Longrightarrow> finalFrom b i a v = finalFrom b i a v'"
  by (subst finalFrom_unfold, subst (2) finalFrom_unfold) simp

lemma outcome_finalFrom: "outcome b i = finalFrom b i 0 zeroResponse"
  by (simp add: outcome_def finalFrom_def)

lemma filter_update_count:
  "i < length xs \<Longrightarrow>
   length (filter P (xs[i := y])) + (if P (xs ! i) then 1 else 0) =
   length (filter P xs) + (if P y then 1 else 0)"
proof (induction xs arbitrary: i)
  case Nil
  then show ?case by simp
next
  case (Cons x xs)
  then show ?case by (cases i) auto
qed

lemma count_goto:
  "pcOf s i = Some g0 \<Longrightarrow>
   count P (goto i g s) + (if P g0 then 1 else 0) = count P s + (if P g then 1 else 0)"
  using filter_update_count [of i "goroutines s" P g]
  by (auto simp: pcOf_def goto_def count_def split: if_splits)

lemma onTrack_results:
  "results s' ! i = results s ! i \<Longrightarrow> onTrack b s' i g = onTrack b s i g"
  by (cases g) simp_all

lemma count_pos: "pcOf s i = Some g \<Longrightarrow> P g \<Longrightarrow> 0 < count P s"
proof -
  assume a: "pcOf s i = Some g" "P g"
  then have "g \<in> set (filter P (goroutines s))"
    by (auto simp: pcOf_def split: if_splits)
  then show ?thesis unfolding count_def by (cases "filter P (goroutines s)") auto
qed

lemma inv_move:
  assumes i: "inv b s"
    and at: "pcOf s i = Some g0" and g0: "live g0" and g: "g \<noteq> NotStarted"
    and gs: "goroutines s' = (goroutines s)[i := g]"
    and sp: "spawned s' = spawned s" and jo: "joined s' = joined s"
    and sem: "semaphore s' + (if holding g0 then 1 else 0) =
              semaphore s + (if holding g then 1 else 0)"
    and cap: "semaphore s' \<le> capacity b"
    and wg: "wg s' + (if live g0 then 1 else 0) = wg s + (if live g then 1 else 0)"
    and len: "length (results s') = length (results s)"
    and rs: "\<forall>j. j \<noteq> i \<longrightarrow> results s' ! j = results s ! j"
    and tr: "onTrack b s' i g"
  shows "inv b s'"
proof -
  have il: "i < length (goroutines s)" and g0eq: "goroutines s ! i = g0"
    using at by (auto simp: pcOf_def split: if_splits)
  have N: "length (goroutines s) = length (units b)" using i by (simp add: inv_def)
  have nj: "\<not> joined s"
  proof
    assume "joined s"
    then have "count live s = 0" using i by (simp add: inv_def)
    then show False using count_pos [OF at, of live] g0 by simp
  qed
  have c1: "count holding s' + (if holding g0 then 1 else 0) =
            count holding s + (if holding g then 1 else 0)"
    using filter_update_count [OF il, of holding g] g0eq gs by (simp add: count_def)
  have c2: "count live s' + (if live g0 then 1 else 0) =
            count live s + (if live g then 1 else 0)"
    using filter_update_count [OF il, of live g] g0eq gs by (simp add: count_def)
  have g0n: "g0 \<noteq> NotStarted" using g0 by auto
  have a1: "length (goroutines s') = length (units b)" using gs N by simp
  have a2: "length (results s') = length (units b)" using len i by (simp add: inv_def)
  have a3: "spawned s' \<le> length (units b)" using sp i by (simp add: inv_def)
  have a4: "\<forall>j < length (units b). goroutines s' ! j = NotStarted \<longleftrightarrow> spawned s' \<le> j"
  proof (intro allI impI)
    fix j assume j: "j < length (units b)"
    have old: "goroutines s ! j = NotStarted \<longleftrightarrow> spawned s \<le> j"
      using i j by (simp add: inv_def)
    show "goroutines s' ! j = NotStarted \<longleftrightarrow> spawned s' \<le> j"
    proof (cases "j = i")
      case True
      then show ?thesis using old g0eq g0n g gs il sp by simp
    next
      case False
      then show ?thesis using old gs sp by simp
    qed
  qed
  have a5: "semaphore s' = count holding s'"
    using c1 sem i by (simp add: inv_def split: if_splits)
  have a6: "wg s' = int (count live s')"
    using c2 wg i by (simp add: inv_def split: if_splits)
  have a7: "\<forall>j < length (units b). onTrack b s' j (goroutines s' ! j)"
  proof (intro allI impI)
    fix j assume j: "j < length (units b)"
    show "onTrack b s' j (goroutines s' ! j)"
    proof (cases "j = i")
      case True
      then show ?thesis using tr gs il by simp
    next
      case False
      have "onTrack b s j (goroutines s ! j)" using i j by (simp add: inv_def)
      then show ?thesis using False gs rs onTrack_results [of s' j s b] by simp
    qed
  qed
  show ?thesis
    unfolding inv_def using a1 a2 a3 a4 a5 cap a6 a7 nj jo by simp
qed

lemma inv_at:
  "inv b s \<Longrightarrow> pcOf s i = Some g \<Longrightarrow>
   i < length (units b) \<and> i < length (results s) \<and> onTrack b s i g"
  by (auto simp: inv_def pcOf_def split: if_splits)

lemma loopHead_shape:
  "holding (loopHead b a v) \<and> live (loopHead b a v) \<and> loopHead b a v \<noteq> NotStarted"
  by (simp add: loopHead_def)

lemma loopHead_onTrack:
  "finalFrom b i a v = outcome b i \<Longrightarrow> results s' = results s \<Longrightarrow>
   onTrack b s' i (loopHead b a v)"
  using finalFrom_vars [of a b i v zeroResponse] finalFrom_unfold [of b i a v]
  by (auto simp: loopHead_def)

lemma goto_fields [simp]:
  "goroutines (goto i g s) = (goroutines s)[i := g]"
  "spawned (goto i g s) = spawned s"
  "joined (goto i g s) = joined s"
  "semaphore (goto i g s) = semaphore s"
  "wg (goto i g s) = wg s"
  "results (goto i g s) = results s"
  by (simp_all add: goto_def)

lemma inv_Acquire:
  assumes "inv b s" "dstep b (Acquire i) s = Some s'"
  shows "inv b s'"
proof -
  have at: "pcOf s i = Some Acquiring" and lt: "semaphore s < capacity b"
    and s': "s' = goto i (loopHead b 0 zeroResponse) (s\<lparr>semaphore := semaphore s + 1\<rparr>)"
    using assms(2) by (auto split: if_splits)
  show ?thesis
  proof (rule inv_move [OF assms(1) at, of "loopHead b 0 zeroResponse"])
    show "onTrack b s' i (loopHead b 0 zeroResponse)"
      by (rule loopHead_onTrack) (simp_all add: outcome_finalFrom s')
  qed (use lt loopHead_shape [of b 0 zeroResponse] in \<open>simp_all add: s'\<close>)
qed

lemma inv_Return:
  assumes "inv b s" "dstep b (Return i) s = Some s'"
  shows "inv b s'"
proof -
  obtain a where at: "pcOf s i = Some (Calling a)"
    using assms(2) by (auto split: option.splits gstate.splits)
  define r where "r = analyze b i a"
  have old: "a < attempts b" "finalFrom b i a zeroResponse = outcome b i"
    using inv_at [OF assms(1) at] by simp_all
  have cap: "semaphore s \<le> capacity b" using assms(1) by (simp add: inv_def)
  show ?thesis
  proof (cases "afterCall (attempts b) (backoff b) a r")
    case Break
    then have s': "s' = goto i (Writing r) s"
      using assms(2) at by (simp add: r_def)
    have "r = outcome b i"
      using old Break finalFrom_unfold [of b i a zeroResponse] by (simp add: r_def)
    then show ?thesis
      by (intro inv_move [OF assms(1) at, of "Writing r"]) (use cap in \<open>simp_all add: s'\<close>)
  next
    case (Backoff w)
    then have s': "s' = goto i (Sleeping a r) s"
      using assms(2) at by (simp add: r_def)
    have "finalFrom b i (a + 1) r = outcome b i"
      using old Backoff finalFrom_unfold [of b i a zeroResponse] by (simp add: r_def)
    then show ?thesis
      by (intro inv_move [OF assms(1) at, of "Sleeping a r"]) (use cap in \<open>simp_all add: s'\<close>)
  next
    case EndOfBody
    then have s': "s' = goto i (loopHead b (a + 1) r) s"
      using assms(2) at by (simp add: r_def)
    have f: "finalFrom b i (a + 1) r = outcome b i"
      using old EndOfBody finalFrom_unfold [of b i a zeroResponse] by (simp add: r_def)
    show ?thesis
    proof (rule inv_move [OF assms(1) at, of "loopHead b (a + 1) r"])
      show "onTrack b s' i (loopHead b (a + 1) r)"
        by (rule loopHead_onTrack [OF f]) (simp add: s')
    qed (use cap loopHead_shape [of b "a + 1" r] in \<open>simp_all add: s'\<close>)
  qed
qed

lemma inv_Wake:
  assumes "inv b s" "dstep b (Wake i) s = Some s'"
  shows "inv b s'"
proof -
  obtain a r where at: "pcOf s i = Some (Sleeping a r)"
    using assms(2) by (auto split: option.splits gstate.splits)
  have s': "s' = goto i (loopHead b (a + 1) r) s"
    using assms(2) at by simp
  have f: "finalFrom b i (a + 1) r = outcome b i"
    using inv_at [OF assms(1) at] by simp
  have cap: "semaphore s \<le> capacity b" using assms(1) by (simp add: inv_def)
  show ?thesis
  proof (rule inv_move [OF assms(1) at, of "loopHead b (a + 1) r"])
    show "onTrack b s' i (loopHead b (a + 1) r)"
      by (rule loopHead_onTrack [OF f]) (simp add: s')
  qed (use cap loopHead_shape [of b "a + 1" r] in \<open>simp_all add: s'\<close>)
qed

lemma inv_Write:
  assumes "inv b s" "dstep b (Write i dur now) s = Some s'"
  shows "inv b s'"
proof -
  obtain r where at: "pcOf s i = Some (Writing r)"
    using assms(2) by (auto split: option.splits gstate.splits)
  have il: "i < length (results s)" "i < length (units b)" and r: "r = outcome b i"
    using inv_at [OF assms(1) at] by simp_all
  have s': "s' = goto i Releasing
      (s\<lparr>results := (results s)[i := unitResult (fusing b) (price b) i (units b ! i) r dur now]\<rparr>)"
    using assms(2) at il by simp
  have cap: "semaphore s \<le> capacity b" using assms(1) by (simp add: inv_def)
  show ?thesis
  proof (rule inv_move [OF assms(1) at, of Releasing])
    show "onTrack b s' i Releasing"
      using il r by (auto simp: s')
  qed (use cap in \<open>simp_all add: s'\<close>)
qed

lemma inv_Release:
  assumes "inv b s" "dstep b (Release i) s = Some s'"
  shows "inv b s'"
proof -
  have at: "pcOf s i = Some Releasing" and pos: "0 < semaphore s"
    and s': "s' = goto i Finishing (s\<lparr>semaphore := semaphore s - 1\<rparr>)"
    using assms(2) by (auto split: if_splits)
  have cap: "semaphore s \<le> capacity b" using assms(1) by (simp add: inv_def)
  have "onTrack b s i Releasing" using inv_at [OF assms(1) at] by simp
  then have "onTrack b s' i Finishing" by (simp add: s')
  then show ?thesis
    by (intro inv_move [OF assms(1) at, of Finishing]) (use cap pos in \<open>simp_all add: s'\<close>)
qed

lemma inv_Done:
  assumes "inv b s" "dstep b (Done i) s = Some s'"
  shows "inv b s'"
proof -
  have at: "pcOf s i = Some Finishing"
    and s': "s' = goto i Finished (s\<lparr>wg := wg s - 1\<rparr>)"
    using assms(2) by (auto split: if_splits)
  have cap: "semaphore s \<le> capacity b" using assms(1) by (simp add: inv_def)
  have "onTrack b s i Finishing" using inv_at [OF assms(1) at] by simp
  then have "onTrack b s' i Finished" by (simp add: s')
  then show ?thesis
    by (intro inv_move [OF assms(1) at, of Finished]) (use cap in \<open>simp_all add: s'\<close>)
qed

lemma inv_Spawn:
  assumes i: "inv b s" and st: "dstep b Spawn s = Some s'"
  shows "inv b s'"
proof -
  define k where "k = spawned s"
  have nj: "\<not> joined s" and k: "k < length (units b)" and at: "pcOf s k = Some NotStarted"
    and s': "s' = goto k Acquiring (s\<lparr>spawned := k + 1, wg := wg s + 1\<rparr>)"
    using st by (auto simp: k_def split: if_splits)
  have il: "k < length (goroutines s)" and g0eq: "goroutines s ! k = NotStarted"
    using at by (auto simp: pcOf_def split: if_splits)
  have c1: "count holding s' = count holding s"
    using filter_update_count [OF il, of holding Acquiring] g0eq by (simp add: count_def s')
  have c2: "count live s' = count live s + 1"
    using filter_update_count [OF il, of live Acquiring] g0eq by (simp add: count_def s')
  have a4: "\<forall>j < length (units b). goroutines s' ! j = NotStarted \<longleftrightarrow> spawned s' \<le> j"
  proof (intro allI impI)
    fix j assume j: "j < length (units b)"
    have old: "goroutines s ! j = NotStarted \<longleftrightarrow> k \<le> j"
      using i j by (simp add: inv_def k_def)
    show "goroutines s' ! j = NotStarted \<longleftrightarrow> spawned s' \<le> j"
      using old il by (cases "j = k") (auto simp: s')
  qed
  have a7: "\<forall>j < length (units b). onTrack b s' j (goroutines s' ! j)"
  proof (intro allI impI)
    fix j assume j: "j < length (units b)"
    have "onTrack b s j (goroutines s ! j)" using i j by (simp add: inv_def)
    then show "onTrack b s' j (goroutines s' ! j)"
      using il onTrack_results [of s' j s b] by (cases "j = k") (auto simp: s')
  qed
  show ?thesis
    unfolding inv_def using i k nj c1 c2 a4 a7
    by (simp add: inv_def s')
qed

lemma inv_Join:
  assumes i: "inv b s" and st: "dstep b Join s = Some s'"
  shows "inv b s'"
proof -
  have s': "s' = s\<lparr>joined := True\<rparr>" and w: "wg s = 0" "spawned s = length (units b)"
    using st by (auto split: if_splits)
  have "\<forall>j < length (units b). onTrack b s' j (goroutines s' ! j)"
    using i onTrack_results [of s' _ s b] by (simp add: inv_def s')
  then show ?thesis
    using i w by (simp add: inv_def s' count_def)
qed

lemma inv_dstep: "inv b s \<Longrightarrow> dstep b e s = Some s' \<Longrightarrow> inv b s'"
  by (cases e)
    (blast intro: inv_Spawn inv_Acquire inv_Return inv_Wake inv_Write inv_Release
       inv_Done inv_Join)+

lemma inv_exec: "inv b s \<Longrightarrow> exec b es s = Some s' \<Longrightarrow> inv b s'"
proof (induction es arbitrary: s)
  case Nil
  then show ?case by simp
next
  case (Cons e es)
  then show ?case by (auto split: option.splits dest: inv_dstep)
qed

lemma inv_init: "inv b (init b)"
  by (simp add: inv_def init_def count_def)

lemma reachable_inv: "reachable b s \<Longrightarrow> inv b s"
  using inv_exec [OF inv_init] by (auto simp: reachable_def)

lemma filter_mono_length:
  "(\<And>x. P x \<Longrightarrow> Q x) \<Longrightarrow> length (filter P xs) \<le> length (filter Q xs)"
  by (induction xs) auto

lemma inFlight_holding: "inFlight g \<Longrightarrow> holding g"
  by (cases g) simp_all

lemma joined_all_Finished:
  assumes i: "inv b s" and j: "joined s" and lt: "k < length (units b)"
  shows "goroutines s ! k = Finished"
proof -
  have z: "count live s = 0" and sp: "spawned s = length (units b)"
    and len: "length (goroutines s) = length (units b)"
    using i j by (simp_all add: inv_def)
  have "goroutines s ! k \<noteq> NotStarted" using i lt sp by (simp add: inv_def)
  moreover have "\<not> live (goroutines s ! k)"
  proof
    assume "live (goroutines s ! k)"
    then have "0 < count live s"
      using count_pos [of s k "goroutines s ! k" live] lt len by (simp add: pcOf_def)
    then show False using z by simp
  qed
  ultimately show ?thesis by (cases "goroutines s ! k") simp_all
qed

lemma filter_pos_nth: "0 < length (filter P xs) \<Longrightarrow> \<exists>i < length xs. P (xs ! i)"
proof -
  assume "0 < length (filter P xs)"
  then obtain x where "x \<in> set (filter P xs)" by (cases "filter P xs") auto
  then have "x \<in> set xs" "P x" by simp_all
  then show ?thesis unfolding in_set_conv_nth by blast
qed

lemma holder_can_step:
  assumes i: "inv b s" and at: "pcOf s j = Some g" and g: "holding g \<or> g = Finishing"
  shows "\<exists>e s'. dstep b e s = Some s'"
proof (cases g)
  case (Calling a)
  have "\<exists>s'. dstep b (Return j) s = Some s'"
    by (cases "afterCall (attempts b) (backoff b) a (analyze b j a)")
      (simp_all add: at [unfolded Calling])
  then show ?thesis by blast
next
  case (Sleeping a r)
  have "\<exists>s'. dstep b (Wake j) s = Some s'" by (simp add: at [unfolded Sleeping])
  then show ?thesis by blast
next
  case (Writing r)
  have "\<exists>s'. dstep b (Write j [] 0) s = Some s'"
    using inv_at [OF i at] by (simp add: at [unfolded Writing])
  then show ?thesis by blast
next
  case Releasing
  then have "0 < semaphore s"
    using count_pos [OF at, of holding] i by (simp add: inv_def)
  then have "\<exists>s'. dstep b (Release j) s = Some s'" by (simp add: at [unfolded Releasing])
  then show ?thesis by blast
next
  case Finishing
  have "\<exists>s'. dstep b (Done j) s = Some s'" by (simp add: at [unfolded Finishing])
  then show ?thesis by blast
next
  case NotStarted
  then show ?thesis using g by simp
next
  case Acquiring
  then show ?thesis using g by simp
next
  case Finished
  then show ?thesis using g by simp
qed

lemma invD:
  assumes "inv b s"
  shows "length (goroutines s) = length (units b)"
    and "length (results s) = length (units b)"
    and "spawned s \<le> length (units b)"
    and "i < length (units b) \<Longrightarrow> goroutines s ! i = NotStarted \<longleftrightarrow> spawned s \<le> i"
    and "semaphore s = count holding s"
    and "semaphore s \<le> capacity b"
    and "wg s = int (count live s)"
  using assms by (simp_all add: inv_def)


lemma progress:
  assumes i: "inv b s" and nj: "\<not> joined s" and cap: "0 < capacity b"
  shows "\<exists>e s'. dstep b e s = Some s'"
proof (cases "spawned s < length (units b)")
  case True
  have "goroutines s ! spawned s = NotStarted"
    using invD(4) [OF i True] by simp
  then have at: "pcOf s (spawned s) = Some NotStarted"
    using True invD(1) [OF i] by (simp add: pcOf_def)
  have "dstep b Spawn s =
      Some (goto (spawned s) Acquiring (s\<lparr>spawned := spawned s + 1, wg := wg s + 1\<rparr>))"
    using True nj at by simp
  then show ?thesis by blast
next
  case False
  then have sp: "spawned s = length (units b)" using invD(3) [OF i] by simp
  show ?thesis
  proof (cases "wg s = 0")
    case True
    then have "dstep b Join s = Some (s\<lparr>joined := True\<rparr>)" using sp nj by simp
    then show ?thesis by blast
  next
    case False
    then have "0 < length (filter live (goroutines s))"
      using invD(7) [OF i] by (simp add: count_def)
    then obtain k where k: "k < length (goroutines s)" "live (goroutines s ! k)"
      using filter_pos_nth [of live "goroutines s"] by auto
    then have atk: "pcOf s k = Some (goroutines s ! k)" by (simp add: pcOf_def)
    show ?thesis
    proof (cases "goroutines s ! k = Acquiring")
      case False
      then have "holding (goroutines s ! k) \<or> goroutines s ! k = Finishing"
        using k(2) by (cases "goroutines s ! k") simp_all
      then show ?thesis by (rule holder_can_step [OF i atk])
    next
      case Acq: True
      show ?thesis
      proof (cases "semaphore s < capacity b")
        case True
        have "pcOf s k = Some Acquiring" using atk Acq by simp
        then have "dstep b (Acquire k) s =
            Some (goto k (loopHead b 0 zeroResponse) (s\<lparr>semaphore := semaphore s + 1\<rparr>))"
          using True by simp
        then show ?thesis by blast
      next
        case False
        then have "0 < semaphore s" using cap by simp
        then have "0 < length (filter holding (goroutines s))"
          using invD(5) [OF i] by (simp add: count_def)
        then obtain j where j: "j < length (goroutines s)" "holding (goroutines s ! j)"
          using filter_pos_nth [of holding "goroutines s"] by auto
        then have atj: "pcOf s j = Some (goroutines s ! j)" by (simp add: pcOf_def)
        show ?thesis by (rule holder_can_step [OF i atj disjI1 [OF j(2)]])
      qed
    qed
  qed
qed

lemma sum_list_update_nat:
  "i < length xs \<Longrightarrow>
   sum_list (map f (xs[i := y])) + f (xs ! i) = sum_list (map f xs) + (f y :: nat)"
proof (induction xs arbitrary: i)
  case Nil
  then show ?case by simp
next
  case (Cons x xs)
  then show ?case by (cases i) auto
qed

lemma workLeft_goto:
  assumes "pcOf s i = Some g0" "stepsLeft b g < stepsLeft b g0"
    and "goroutines s' = (goroutines s)[i := g]" "joined s' = joined s"
  shows "workLeft b s' < workLeft b s"
proof -
  have il: "i < length (goroutines s)" and g0: "goroutines s ! i = g0"
    using assms(1) by (auto simp: pcOf_def split: if_splits)
  show ?thesis
    using sum_list_update_nat [OF il, of "stepsLeft b" g] g0 assms(2-4)
    by (simp add: workLeft_def)
qed

lemma loopHead_stepsLeft:
  "stepsLeft b (loopHead b (a + 1) r) < stepsLeft b (Sleeping a r)"
  "stepsLeft b (loopHead b 0 r) < stepsLeft b Acquiring"
  by (auto simp: loopHead_def)

lemma workLeft_dstep:
  assumes "dstep b e s = Some s'"
  shows "workLeft b s' < workLeft b s"
proof (cases e)
  case Spawn
  then show ?thesis using assms
    by (auto split: if_splits intro!: workLeft_goto [where i = "spawned s" and ?g0.0 = NotStarted and g = Acquiring])
next
  case (Acquire i)
  then show ?thesis using assms loopHead_stepsLeft(2) [of b zeroResponse]
    by (auto split: if_splits
        intro!: workLeft_goto [where i = i and ?g0.0 = Acquiring and g = "loopHead b 0 zeroResponse"])
next
  case (Return i)
  then obtain a where at: "pcOf s i = Some (Calling a)"
    using assms by (auto split: option.splits gstate.splits)
  define r where "r = analyze b i a"
  have lh: "stepsLeft b (loopHead b (a + 1) r) < stepsLeft b (Calling a)"
    using loopHead_stepsLeft(1) [of b a r] by simp
  show ?thesis
  proof (cases "afterCall (attempts b) (backoff b) a r")
    case Break
    then have "s' = goto i (Writing r) s" using assms Return at by (simp add: r_def)
    then show ?thesis
      by (intro workLeft_goto [OF at, of b "Writing r"]) simp_all
  next
    case (Backoff w)
    then have "s' = goto i (Sleeping a r) s" using assms Return at by (simp add: r_def)
    then show ?thesis
      by (intro workLeft_goto [OF at, of b "Sleeping a r"]) simp_all
  next
    case EndOfBody
    then have "s' = goto i (loopHead b (a + 1) r) s"
      using assms Return at by (simp add: r_def)
    then show ?thesis
      by (intro workLeft_goto [OF at, of b "loopHead b (a + 1) r"]) (use lh in simp_all)
  qed
next
  case (Wake i)
  then obtain a r where at: "pcOf s i = Some (Sleeping a r)"
    using assms by (auto split: option.splits gstate.splits)
  then show ?thesis using assms Wake loopHead_stepsLeft(1) [of b a r]
    by (auto intro!: workLeft_goto [where i = i and ?g0.0 = "Sleeping a r"])
next
  case (Write i dur now)
  then obtain r where at: "pcOf s i = Some (Writing r)"
    using assms by (auto split: option.splits gstate.splits)
  then show ?thesis using assms Write
    by (auto split: if_splits intro!: workLeft_goto [where i = i and ?g0.0 = "Writing r"])
next
  case (Release i)
  then show ?thesis using assms
    by (auto split: if_splits intro!: workLeft_goto [where i = i and ?g0.0 = Releasing])
next
  case (Done i)
  then show ?thesis using assms
    by (auto split: if_splits intro!: workLeft_goto [where i = i and ?g0.0 = Finishing])
next
  case Join
  then show ?thesis using assms by (auto simp: workLeft_def split: if_splits)
qed

lemma exec_append:
  "exec b (es @ fs) s = (case exec b es s of None \<Rightarrow> None | Some s' \<Rightarrow> exec b fs s')"
  by (induction es arbitrary: s) (auto split: option.splits)

lemma completes:
  "inv b s \<Longrightarrow> 0 < capacity b \<Longrightarrow> \<exists>es s'. exec b es s = Some s' \<and> joined s'"
proof (induction "workLeft b s" arbitrary: s rule: less_induct)
  case less
  show ?case
  proof (cases "joined s")
    case True
    then have "exec b [] s = Some s \<and> joined s" by simp
    then show ?thesis by blast
  next
    case False
    then obtain e s1 where st: "dstep b e s = Some s1"
      using progress [OF less.prems(1) False less.prems(2)] by blast
    have "workLeft b s1 < workLeft b s" by (rule workLeft_dstep [OF st])
    moreover have "inv b s1" by (rule inv_dstep [OF less.prems(1) st])
    ultimately obtain es s' where "exec b es s1 = Some s'" "joined s'"
      using less.hyps [of s1] less.prems(2) by auto
    then have "exec b (e # es) s = Some s' \<and> joined s'" using st by simp
    then show ?thesis by blast
  qed
qed

subsection \<open>The analysis call\<close>

lemma analyzeChunk_env_ok: "analyzeChunk env_ok = (''# Page 1'', 1250, 850, None)"
  by (simp add: analyzeChunk_def env_ok_def)

lemma showInt_429: "showInt 429 = ''429''"
  by (simp add: showInt_def showNat.simps)

lemma showInt_500: "showInt 500 = ''500''"
  by (simp add: showInt_def showNat.simps)

lemma analyzeChunk_env_429:
  "analyzeChunk env_429 = ('''', 0, 0, Some ''API error (status 429): rate_limit_error'')"
  by (simp add: analyzeChunk_def env_429_def showInt_429)

lemma analyzeChunk_env_500:
  "analyzeChunk env_500 = ('''', 0, 0, Some ''API error (status 500): internal error'')"
  by (simp add: analyzeChunk_def env_500_def showInt_500)

lemma transient_429: "transient (analyzeChunk env_429)"
  by (simp add: analyzeChunk_env_429 transient_def isRateLimit_def)

lemma permanent_500: "permanent (analyzeChunk env_500)"
  by (simp add: analyzeChunk_env_500 permanent_def isRateLimit_def)

lemma succeeded_ok: "succeeded (analyzeChunk env_ok)"
  by (simp add: analyzeChunk_env_ok succeeded_def)

text \<open>
  C10. When \<open>analyzeChunk\<close> returns an error, the analysis text is empty and both token
  counts are 0; when it returns no error, every step before the parse went through, the
  status was 200, and the text and the token counts are those of the parsed response
  (the text of its first content block, or the empty string when it has none).
\<close>

theorem analyzeChunk_error_zero_values:
  "(\<forall>analysis inputTokens outputTokens err.
      analyzeChunk env = (analysis, inputTokens, outputTokens, Some err) \<longrightarrow>
      analysis = '''' \<and> inputTokens = 0 \<and> outputTokens = 0) \<and>
   (\<forall>analysis inputTokens outputTokens.
      analyzeChunk env = (analysis, inputTokens, outputTokens, None) \<longrightarrow>
      (\<exists>pdfBytes jsonData resp body parsed.
         os_ReadFile env = Inr pdfBytes \<and> json_Marshal env = Inr jsonData \<and>
         http_NewRequest env = Inr () \<and> client_Do env = Inr resp \<and>
         ReadAll_Body resp = Inr body \<and> StatusCode resp = 200 \<and>
         json_Unmarshal env body = Inr parsed \<and>
         analysis = (case Content parsed of [] \<Rightarrow> '''' | text # rest \<Rightarrow> text) \<and>
         inputTokens = Usage_InputTokens parsed \<and>
         outputTokens = Usage_OutputTokens parsed))"
  by (auto simp: analyzeChunk_def Let_def split: sum.splits if_splits list.splits)

theorem analyzeChunk_error_zero_values_witness:
  "analyzeChunk env_429 = ('''', 0, 0, Some ''API error (status 429): rate_limit_error'') \<and>
   analyzeChunk env_ok = (''# Page 1'', 1250, 850, None) \<and>
   (\<exists>resp body parsed. client_Do env_ok = Inr resp \<and> ReadAll_Body resp = Inr body \<and>
      StatusCode resp = 200 \<and> json_Unmarshal env_ok body = Inr parsed \<and>
      Usage_InputTokens parsed = 1250 \<and> Usage_OutputTokens parsed = 850)"
  using analyzeChunk_error_zero_values [of env_429] analyzeChunk_error_zero_values [of env_ok]
    analyzeChunk_env_429 analyzeChunk_env_ok
  by (auto simp: env_ok_def)

subsection \<open>Retry, backoff and the stored result\<close>

lemma unitResult_fields:
  "ChunkNumber (unitResult build p i c r dur now) = int i + 1"
  "StartPage (unitResult build p i c r dur now) = ChunkStartPage c + 1"
  "EndPage (unitResult build p i c r dur now) = ChunkEndPage c + 1"
  "Analysis (unitResult build p i c r dur now) = fst r"
  "InputTokens (unitResult build p i c r dur now) = fst (snd r)"
  "OutputTokens (unitResult build p i c r dur now) = fst (snd (snd r))"
  "Error (unitResult build p i c r dur now) = (case snd (snd (snd r)) of None \<Rightarrow> '''' | Some e \<Rightarrow> e)"
  "ProcessingTime (unitResult build p i c r dur now) = dur"
  "Timestamp (unitResult build p i c r dur now) = now"
  by (auto simp: unitResult_def Let_def split: prod.splits option.splits)

lemma unitResult_costs:
  "InputCost (unitResult build p i c r dur now) =
     fmul (fdiv (float64_of_int (fst (snd r))) 1000000) (InputPricePerMTokens p)"
  "OutputCost (unitResult build p i c r dur now) =
     fmul (fdiv (float64_of_int (fst (snd (snd r)))) 1000000) (OutputPricePerMTokens p)"
  "TotalCost (unitResult build p i c r dur now) =
     (case build of
        Unfused \<Rightarrow>
          fadd (InputCost (unitResult build p i c r dur now))
            (OutputCost (unitResult build p i c r dur now))
      | FusedInput \<Rightarrow>
          ffma (fdiv (float64_of_int (fst (snd r))) 1000000) (InputPricePerMTokens p)
            (OutputCost (unitResult build p i c r dur now))
      | FusedOutput \<Rightarrow>
          ffma (fdiv (float64_of_int (fst (snd (snd r)))) 1000000) (OutputPricePerMTokens p)
            (InputCost (unitResult build p i c r dur now)))"
  by (auto simp: unitResult_def Let_def split: prod.splits option.splits fusion.splits)


lemma flaky_run:
  "retryLoop maxRetries retryDelay flaky 0 zeroResponse [] =
     (analyzeChunk env_ok, schedule retryDelay 0 2)"
  using retryLoop_transients [of 0 2 flaky 3 retryDelay zeroResponse "[]"]
    transient_429 succeeded_ok
  by (simp add: flaky_def maxRetries_def)



text \<open>
  An error whose message holds neither \<open>rate_limit\<close> nor \<open>429\<close> ends the loop at once,
  after one call, and is stored.
\<close>

lemma unmatched_error_breaks:
  assumes "0 < R" and "permanent (f 0)"
  shows "retryLoop R d f 0 zeroResponse [] = (f 0, [Call 0]) \<and>
         Some (Error (unitResult build p i c (f 0) dur now)) = snd (snd (snd (f 0)))"
proof -
  have "retryLoop R d f 0 zeroResponse [] = (f 0, [] @ [Call 0])"
    using assms by (intro retryLoop_break) simp_all
  moreover have "Some (Error (unitResult build p i c (f 0) dur now)) = snd (snd (snd (f 0)))"
    using assms(2) by (auto simp: unitResult_fields permanent_def split: option.splits)
  ultimately show ?thesis by simp
qed

lemma broken_run:
  "retryLoop maxRetries retryDelay broken 0 zeroResponse [] =
     (('''', 0, 0, Some ''API error (status 500): internal error''), [Call 0])"
proof -
  have h1: "0 < maxRetries" by (simp add: maxRetries_def)
  have h2: "permanent (broken 0)" using permanent_500 by (simp add: broken_def)
  show ?thesis
    using unmatched_error_breaks [where R = maxRetries and f = broken and d = retryDelay
        and build = Unfused and p = examplePrice and i = 0 and c = "twoPages ! 0"
        and dur = "''1s''" and now = 10, OF h1 h2]
    by (simp add: broken_def analyzeChunk_env_500)
qed

lemma showInt_400: "showInt 400 = ''400''"
  by (simp add: showInt_def showNat.simps)

lemma analyzeChunk_env_400:
  "analyzeChunk env_400 =
     ('''', 0, 0,
      Some (''API error (status 400): '' @
            ''invalid_request_error: prompt is too long: 204290 tokens > 200000 maximum''))"
  by (simp add: analyzeChunk_def env_400_def showInt_400)

lemma transient_400: "transient (analyzeChunk env_400)"
  by (simp add: analyzeChunk_env_400 transient_def isRateLimit_def)

text \<open>
  C3, at a failing input. The service answers every attempt of a unit with status 400
  (the request is refused for good; no rate limit is involved), and the body of the
  answer holds the number 204290. \<open>analyzeChunk\<close> puts status and body into the message,
  and the loop looks for \<open>429\<close> anywhere in the message: it takes the error for a rate
  limit, sleeps 2 s and 4 s, and calls the analysis function three times before the error
  is stored, where the claim, and the comments of the loop on its two branches, have a
  non-rate-limit error stored after a single call.
\<close>

theorem status_400_is_retried:
  "client_Do env_400 =
     Inr \<lparr>StatusCode = 400,
          ReadAll_Body =
            Inr ''invalid_request_error: prompt is too long: 204290 tokens > 200000 maximum''\<rparr> \<and>
   retryLoop maxRetries retryDelay tooLong 0 zeroResponse [] =
     (('''', 0, 0,
       Some (''API error (status 400): '' @
             ''invalid_request_error: prompt is too long: 204290 tokens > 200000 maximum'')),
      [Call 0, Sleep (2 * Second), Call 1, Sleep (4 * Second), Call 2]) \<and>
   Error (unitResult Unfused examplePrice 0 (twoPages ! 0)
            (fst (retryLoop maxRetries retryDelay tooLong 0 zeroResponse [])) ''1s'' 10) =
     ''API error (status 400): '' @
     ''invalid_request_error: prompt is too long: 204290 tokens > 200000 maximum''"
proof -
  have run: "retryLoop maxRetries retryDelay tooLong 0 zeroResponse [] =
      (analyzeChunk env_400, schedule retryDelay 0 2)"
    using retryLoop_transients [of 0 2 tooLong 3 retryDelay zeroResponse "[]"] transient_400
    by (simp add: tooLong_def maxRetries_def)
  have sch: "schedule retryDelay 0 2 =
      [Call 0, Sleep (2 * Second), Call 1, Sleep (4 * Second), Call 2]"
    by (simp add: numeral_2_eq_2 retryDelay_def)
  have env: "client_Do env_400 =
     Inr \<lparr>StatusCode = 400,
          ReadAll_Body =
            Inr ''invalid_request_error: prompt is too long: 204290 tokens > 200000 maximum''\<rparr>"
    by (simp add: env_400_def)
  show ?thesis
    unfolding run sch using env by (simp add: analyzeChunk_env_400 unitResult_fields)
qed

lemma length_schedule: "length (schedule d a n) = 2 * n + 1"
  by (induction n arbitrary: a) simp_all

lemma schedule_Sleep:
  "m < length (schedule d a n) \<Longrightarrow> schedule d a n ! m = Sleep w \<Longrightarrow>
   \<exists>k. m = 2 * k + 1 \<and> schedule d a n ! (m - 1) = Call (a + int k) \<and>
       w = d * 2 ^ nat (a + int k) \<and> m + 1 < length (schedule d a n) \<and>
       schedule d a n ! (m + 1) = Call (a + int k + 1)"
proof (induction n arbitrary: a m)
  case 0
  then show ?case by simp
next
  case (Suc n)
  show ?case
  proof (cases m)
    case 0
    then show ?thesis using Suc.prems by simp
  next
    case m1: (Suc m1)
    show ?thesis
    proof (cases m1)
      case 0
      have "schedule d (a + 1) n ! 0 = Call (a + 1)" by (cases n) simp_all
      then show ?thesis using Suc.prems m1 0 by (simp add: length_schedule)
    next
      case (Suc m2)
      have lt: "m2 < length (schedule d (a + 1) n)" and sl: "schedule d (a + 1) n ! m2 = Sleep w"
        using Suc.prems m1 Suc by simp_all
      from Suc.IH [OF lt sl] obtain k where k: "m2 = 2 * k + 1"
        "schedule d (a + 1) n ! (m2 - 1) = Call (a + 1 + int k)"
        "w = d * 2 ^ nat (a + 1 + int k)" "m2 + 1 < length (schedule d (a + 1) n)"
        "schedule d (a + 1) n ! (m2 + 1) = Call (a + 1 + int k + 1)"
        by blast
      have eq: "a + 1 + int k = a + int (Suc k)" by simp
      show ?thesis
        using k m1 Suc unfolding eq
        by (intro exI [of _ "Suc k"]) simp
    qed
  qed
qed

lemma retryDelay_exact:
  "sint (retryDelay * 2 ^ nat 0) = 2000000000 * 2 ^ nat 0"
  "sint (retryDelay * 2 ^ nat 1) = 2000000000 * 2 ^ nat 1"
  by (simp_all add: retryDelay_def Second_def)

text \<open>
  C7. Whatever the analysis function returns, the actions of the retry loop are a call
  of attempt 0, and then for each retry the sleep and the next call: every sleep follows
  the call of some attempt \<open>a\<close>, lasts \<open>d * 2 ^ a\<close> and is followed by the call of attempt
  \<open>a + 1\<close>. The product is that of \<open>time.Duration\<close>, a 64-bit integer; with the constants
  of the program (base delay 2 s, sleeps after the attempts 0 and 1 only) it is the exact
  number of nanoseconds, 2 s and 4 s.
\<close>

theorem backoff_doubles:
  assumes "0 < R" and "retryLoop R d f 0 zeroResponse [] = (r, tr)"
  shows "(\<exists>n. int n < R \<and> tr = schedule d 0 n) \<and>
         (\<forall>m w. m < length tr \<and> tr ! m = Sleep w \<longrightarrow>
            (\<exists>a. 0 \<le> a \<and> a < R - 1 \<and> 0 < m \<and> tr ! (m - 1) = Call a \<and> w = d * 2 ^ nat a \<and>
                 m + 1 < length tr \<and> tr ! (m + 1) = Call (a + 1))) \<and>
         (\<forall>a. 0 \<le> a \<and> a < maxRetries - 1 \<longrightarrow>
            sint (retryDelay * 2 ^ nat a) = 2000000000 * 2 ^ nat a)"
proof -
  obtain n where n: "int n < R" "tr = schedule d 0 n"
    using retryLoop_schedule [of 0 R d f zeroResponse "[]"] assms by auto
  have sleeps: "\<exists>a. 0 \<le> a \<and> a < R - 1 \<and> 0 < m \<and> tr ! (m - 1) = Call a \<and> w = d * 2 ^ nat a \<and>
                 m + 1 < length tr \<and> tr ! (m + 1) = Call (a + 1)"
    if "m < length tr \<and> tr ! m = Sleep w" for m w
  proof -
    have a: "m < length (schedule d 0 n)" "schedule d 0 n ! m = Sleep w"
      using that n(2) by simp_all
    from schedule_Sleep [OF a] obtain k where k0: "m = 2 * k + 1"
      "schedule d 0 n ! (m - 1) = Call (0 + int k)" "w = d * 2 ^ nat (0 + int k)"
      "m + 1 < length (schedule d 0 n)" "schedule d 0 n ! (m + 1) = Call (0 + int k + 1)"
      by blast
    have k: "m = 2 * k + 1" "tr ! (m - 1) = Call (int k)" "w = d * 2 ^ nat (int k)"
      "m + 1 < length tr" "tr ! (m + 1) = Call (int k + 1)"
      using k0 n(2) by simp_all
    have "2 * k + 2 < 2 * n + 1" using k(1,4) n(2) by (simp add: length_schedule)
    then have "int k < R - 1" using n(1) by simp
    then show ?thesis using k by (intro exI [of _ "int k"]) simp
  qed
  have exact: "sint (retryDelay * 2 ^ nat a) = 2000000000 * 2 ^ nat a"
    if "0 \<le> a \<and> a < maxRetries - 1" for a
  proof -
    have "a = 0 \<or> a = 1" using that by (auto simp: maxRetries_def)
    then show ?thesis using retryDelay_exact by auto
  qed
  show ?thesis using n sleeps exact by blast
qed

theorem backoff_doubles_witness:
  "retryLoop maxRetries retryDelay flaky 0 zeroResponse [] =
     (analyzeChunk env_ok,
      [Call 0, Sleep (2 * Second), Call 1, Sleep (4 * Second), Call 2]) \<and>
   sint (2 * Second) = 2000000000 \<and> sint (4 * Second) = 4000000000"
proof -
  have h1: "0 < maxRetries" by (simp add: maxRetries_def)
  have "schedule retryDelay 0 2 =
      [Call 0, Sleep (2 * Second), Call 1, Sleep (4 * Second), Call 2]"
    by (simp add: numeral_2_eq_2 retryDelay_def)
  then show ?thesis
    using backoff_doubles [OF h1 flaky_run] flaky_run
    by (simp add: Second_def)
qed

subsection \<open>The batch\<close>

lemma smallBatch_fields:
  "units smallBatch = twoPages" "capacity smallBatch = 1" "attempts smallBatch = 3"
  "fusing smallBatch = Unfused"
  "analyze smallBatch 0 0 = analyzeChunk env_500"
  "analyze smallBatch (Suc 0) 0 = analyzeChunk env_ok"
  "length twoPages = 2"
  by (simp_all add: smallBatch_def twoPages_def maxRetries_def broken_def)

lemma afterCall_small:
  "afterCall 3 (backoff smallBatch) 0 (analyzeChunk env_500) = Break"
  "afterCall 3 (backoff smallBatch) 0 (analyzeChunk env_ok) = Break"
  using permanent_500 succeeded_ok by (simp_all add: afterCall_cases)

lemma page2First_prefix:
  "exec smallBatch [Spawn, Spawn, Acquire 1] (init smallBatch) =
     Some \<lparr>spawned = 2, joined = False, wg = 2, semaphore = 1,
           goroutines = [Acquiring, Calling 0],
           results = [zeroChunkAnalysis, zeroChunkAnalysis]\<rparr>"
  by (simp add: init_def smallBatch_fields pcOf_def goto_def loopHead_def numeral_2_eq_2)

lemma page2First_run:
  "exec smallBatch page2First (init smallBatch) =
     Some \<lparr>spawned = 2, joined = True, wg = 0, semaphore = 0,
           goroutines = [Finished, Finished],
           results =
             [unitResult Unfused (price smallBatch) 0 (twoPages ! 0) (analyzeChunk env_500) ''0.3s'' 20,
              unitResult Unfused (price smallBatch) 1 (twoPages ! 1) (analyzeChunk env_ok) ''1.2s'' 10]\<rparr>"
  by (simp add: page2First_def init_def smallBatch_fields afterCall_small pcOf_def goto_def
      loopHead_def numeral_2_eq_2)

lemma outcome_small:
  "outcome smallBatch 0 = analyzeChunk env_500"
  "outcome smallBatch (Suc 0) = analyzeChunk env_ok"
  using retryLoop_break [of 0 3 "analyze smallBatch 0" "backoff smallBatch" zeroResponse "[]"]
    retryLoop_break [of 0 3 "analyze smallBatch (Suc 0)" "backoff smallBatch" zeroResponse "[]"]
    permanent_500 succeeded_ok
  by (simp_all add: outcome_def smallBatch_fields)

text \<open>
  C1. Take a batch of any number of units behind a semaphore of capacity at least 1.
  The batch completes: some execution reaches the return of \<open>wg.Wait()\<close>. In every state of
  every execution, whatever the capacity and the interleaving of the workers, \<open>results\<close>
  has exactly one entry per unit; and once \<open>wg.Wait()\<close> has returned, the entry at index
  \<open>i\<close> is the result of unit \<open>i\<close>: the record built from chunk \<open>i\<close> and from what the retry
  loop of unit \<open>i\<close> ends with (the processing time and the time stamp are those the worker
  read from the clock).
\<close>

theorem results_indexed_by_unit:
  assumes "0 < capacity b"
  shows "(\<exists>s. reachable b s \<and> joined s) \<and>
         (\<forall>s. reachable b s \<longrightarrow>
            length (results s) = length (units b) \<and>
            (joined s \<longrightarrow>
               (\<forall>i < length (units b). \<exists>dur now.
                  results s ! i =
                    unitResult (fusing b) (price b) i (units b ! i) (outcome b i) dur now)))"
proof (intro conjI allI impI)
  show "\<exists>s. reachable b s \<and> joined s"
    using completes [OF inv_init assms] by (auto simp: reachable_def)
next
  fix s assume "reachable b s"
  then show "length (results s) = length (units b)"
    using invD(2) [OF reachable_inv] by simp
next
  fix s i assume r: "reachable b s" and j: "joined s" and i: "i < length (units b)"
  have v: "inv b s" by (rule reachable_inv [OF r])
  have "goroutines s ! i = Finished" by (rule joined_all_Finished [OF v j i])
  moreover have "onTrack b s i (goroutines s ! i)" using v i by (simp add: inv_def)
  ultimately show "\<exists>dur now. results s ! i =
      unitResult (fusing b) (price b) i (units b ! i) (outcome b i) dur now"
    by simp
qed

theorem results_indexed_by_unit_witness:
  "0 < capacity smallBatch \<and>
   (\<exists>s. exec smallBatch page2First (init smallBatch) = Some s \<and> joined s \<and>
        length (results s) = 2 \<and>
        ChunkNumber (results s ! 0) = 1 \<and>
        Error (results s ! 0) = ''API error (status 500): internal error'' \<and>
        ChunkNumber (results s ! 1) = 2 \<and>
        InputTokens (results s ! 1) = 1250 \<and> Error (results s ! 1) = '''')"
proof -
  have cap: "0 < capacity smallBatch" by (simp add: smallBatch_fields)
  obtain s where s: "exec smallBatch page2First (init smallBatch) = Some s" "joined s"
    using page2First_run by simp
  have r: "reachable smallBatch s"
    unfolding reachable_def by (rule exI [of _ page2First]) (rule s(1))
  have len: "length (results s) = 2"
    and each: "\<And>i. i < 2 \<Longrightarrow> \<exists>dur now. results s ! i =
        unitResult Unfused (price smallBatch) i (twoPages ! i) (outcome smallBatch i) dur now"
    using results_indexed_by_unit [OF cap] r s(2) by (auto simp: smallBatch_fields)
  have "ChunkNumber (results s ! 0) = 1 \<and>
        Error (results s ! 0) = ''API error (status 500): internal error''"
    using each [of 0] by (auto simp: unitResult_fields outcome_small analyzeChunk_env_500)
  moreover have "ChunkNumber (results s ! 1) = 2 \<and>
        InputTokens (results s ! 1) = 1250 \<and> Error (results s ! 1) = ''''"
    using each [of 1] by (auto simp: unitResult_fields outcome_small analyzeChunk_env_ok)
  ultimately show ?thesis using cap s len by blast
qed

text \<open>
  C6. In every state of every execution, the number of workers inside a call of
  \<open>analyzeChunk\<close> is at most the capacity of the semaphore. For the workers that hold a
  slot are those between their send into the channel and their receive from it (in a
  call, asleep between two attempts, or storing their result); their number is the
  number of elements in the channel, which never exceeds its capacity; and a worker in a
  call is one of them. The capacity in \<open>main\<close> is \<open>maxConcurrent = 4\<close>.
\<close>

theorem in_flight_bounded:
  assumes "reachable b s"
  shows "count inFlight s \<le> count holding s \<and>
         count holding s = semaphore s \<and>
         semaphore s \<le> capacity b \<and>
         count inFlight s \<le> capacity b \<and>
         capacity (mainBatch build modelName chunks f) = 4"
proof -
  have v: "inv b s" by (rule reachable_inv [OF assms])
  have "count inFlight s \<le> count holding s"
    unfolding count_def by (rule filter_mono_length) (rule inFlight_holding)
  then show ?thesis
    using invD(5,6) [OF v] by (simp add: mainBatch_def maxConcurrent_def)
qed

theorem in_flight_bounded_witness:
  "\<exists>s. exec smallBatch [Spawn, Spawn, Acquire 1] (init smallBatch) = Some s \<and>
       count inFlight s = 1 \<and> capacity smallBatch = 1 \<and> semaphore s = 1 \<and>
       pcOf s 0 = Some Acquiring \<and> dstep smallBatch (Acquire 0) s = None"
proof -
  obtain s where s: "exec smallBatch [Spawn, Spawn, Acquire 1] (init smallBatch) = Some s"
    and g: "goroutines s = [Acquiring, Calling 0]" and m: "semaphore s = 1"
    using page2First_prefix by simp
  have r: "reachable smallBatch s"
    unfolding reachable_def by (rule exI [of _ "[Spawn, Spawn, Acquire 1]"]) (rule s)
  have "count inFlight s = 1" using g by (simp add: count_def)
  moreover have "pcOf s 0 = Some Acquiring" using g by (simp add: pcOf_def)
  moreover have "dstep smallBatch (Acquire 0) s = None"
    using in_flight_bounded [OF r] m by (simp add: smallBatch_fields)
  ultimately show ?thesis using s m by (auto simp: smallBatch_fields)
qed

subsection \<open>Totals and costs\<close>

lemma sint_sum_list:
  "sint (sum_list ws :: 64 word) = signed_take_bit 63 (sum_list (map sint ws))"
proof (induction ws)
  case Nil
  then show ?case by simp
next
  case (Cons a ws)
  have self: "signed_take_bit 63 (sint a) = sint a"
    using sint_range_size [of a]
    by (intro signed_take_bit_int_eq_self) (simp_all add: word_size)
  have "sint (a + sum_list ws) = signed_take_bit 63 (sint a + sint (sum_list ws))"
    by (simp add: sint_word_ariths)
  also have "\<dots> = signed_take_bit 63
      (signed_take_bit 63 (sint a) + signed_take_bit 63 (sum_list (map sint ws)))"
    by (simp add: Cons.IH self)
  also have "\<dots> = signed_take_bit 63 (sint a + sum_list (map sint ws))"
    by (rule signed_take_bit_add)
  finally show ?case by simp
qed

lemma chunkTotals_from:
  "foldl (\<lambda>(chunkInputTokens, chunkOutputTokens, chunkInputCost, chunkOutputCost) result.
            (chunkInputTokens + InputTokens result,
             chunkOutputTokens + OutputTokens result,
             fadd chunkInputCost (InputCost result),
             fadd chunkOutputCost (OutputCost result)))
     (a, b, c, d) rs =
   (a + sum_list (map InputTokens rs), b + sum_list (map OutputTokens rs),
    foldl fadd c (map InputCost rs), foldl fadd d (map OutputCost rs))"
  by (induction rs arbitrary: a b c d) (simp_all add: add.assoc)

lemma chunkTotals_folds:
  "chunkTotals rs =
     (sum_list (map InputTokens rs), sum_list (map OutputTokens rs),
      foldl fadd 0 (map InputCost rs), foldl fadd 0 (map OutputCost rs))"
  unfolding chunkTotals_def by (simp add: chunkTotals_from)

lemma shippedPrice:
  "InputPricePerMTokens (GetPricing ''claude-3-5-haiku-20241022'') = 1 / 4"
  "OutputPricePerMTokens (GetPricing ''claude-3-5-haiku-20241022'') = 5 / 4"
  by (simp_all add: GetPricing_def ModelPricing_def)

lemma shipped_unit_costs:
  "fmul (fdiv (float64_of_int 100) 1000000) (1 / 4) = 7378697629483821 / 295147905179352825856"
  "fmul (fdiv (float64_of_int 50) 1000000) (5 / 4) = 1152921504606847 / 18446744073709551616"
  "fmul (fdiv (float64_of_int 200) 1000000) (1 / 4) = 7378697629483821 / 147573952589676412928"
  "fmul (fdiv (float64_of_int 100) 1000000) (5 / 4) = 1152921504606847 / 9223372036854775808"
  by code_simp+

lemma shipped_unit_totals:
  "fadd (7378697629483821 / 295147905179352825856) (1152921504606847 / 18446744073709551616) =
     6456360425798343 / 73786976294838206464"
  "ffma (fdiv (float64_of_int 100) 1000000) (1 / 4) (1152921504606847 / 18446744073709551616) =
     6456360425798343 / 73786976294838206464"
  "ffma (fdiv (float64_of_int 50) 1000000) (5 / 4) (7378697629483821 / 295147905179352825856) =
     6456360425798343 / 73786976294838206464"
  "fadd (7378697629483821 / 147573952589676412928) (1152921504606847 / 9223372036854775808) =
     6456360425798343 / 36893488147419103232"
  "ffma (fdiv (float64_of_int 200) 1000000) (1 / 4) (1152921504606847 / 9223372036854775808) =
     6456360425798343 / 36893488147419103232"
  "ffma (fdiv (float64_of_int 100) 1000000) (5 / 4) (7378697629483821 / 147573952589676412928) =
     6456360425798343 / 36893488147419103232"
  by code_simp+

lemma shipped_sums:
  "fadd 0 (7378697629483821 / 295147905179352825856) = 7378697629483821 / 295147905179352825856"
  "fadd (7378697629483821 / 295147905179352825856) (7378697629483821 / 147573952589676412928) =
     2767011611056433 / 36893488147419103232"
  "fadd 0 (1152921504606847 / 18446744073709551616) = 1152921504606847 / 18446744073709551616"
  "fadd (1152921504606847 / 18446744073709551616) (1152921504606847 / 9223372036854775808) =
     3458764513820541 / 18446744073709551616"
  "fadd (2767011611056433 / 36893488147419103232) (3458764513820541 / 18446744073709551616) =
     2421135159674379 / 9223372036854775808"
  "fadd 0 (6456360425798343 / 73786976294838206464) = 6456360425798343 / 73786976294838206464"
  "fadd (6456360425798343 / 73786976294838206464) (6456360425798343 / 36893488147419103232) =
     4842270319348757 / 18446744073709551616"
  by code_simp+

lemma shipped_fields:
  "map InputCost (shippedResults build) =
     [7378697629483821 / 295147905179352825856, 7378697629483821 / 147573952589676412928]"
  "map OutputCost (shippedResults build) =
     [1152921504606847 / 18446744073709551616, 1152921504606847 / 9223372036854775808]"
  "map TotalCost (shippedResults build) =
     [6456360425798343 / 73786976294838206464, 6456360425798343 / 36893488147419103232]"
  by (cases build;
      simp add: shippedResults_def unitResult_costs shippedPrice shipped_unit_costs
        shipped_unit_totals)+

lemma shipped_total:
  "ResultTotalCost (fullResult exampleConfig 2 twoPages (shippedResults build) ''2s'' 30) =
     2421135159674379 / 9223372036854775808"
  "TotalInputCost (fullResult exampleConfig 2 twoPages (shippedResults build) ''2s'' 30) =
     2767011611056433 / 36893488147419103232"
  "TotalOutputCost (fullResult exampleConfig 2 twoPages (shippedResults build) ''2s'' 30) =
     3458764513820541 / 18446744073709551616"
  by (simp_all add: fullResult_def chunkTotals_folds shipped_fields shipped_sums)

lemma shipped_sum_of_unit_totals:
  "foldl fadd 0 (map TotalCost (shippedResults build)) =
     4842270319348757 / 18446744073709551616"
  "sum_list (map TotalCost (shippedResults build)) =
     19369081277395029 / 73786976294838206464"
  by (simp_all add: shipped_fields shipped_sums)

text \<open>
  C4, as stated, at two units with token counts (100, 50) and (200, 100) and the prices
  of the model that \<open>main\<close> uses. The total cost of the result is not the sum of the
  per-unit total costs, neither their float64 sum nor their exact sum, on any build: it
  is 0.00026250000000000004, and the per-unit total costs 0.0000875 and 0.000175 add up
  to 0.0002625.
\<close>

theorem total_cost_counterexample:
  "ResultTotalCost (fullResult exampleConfig 2 twoPages (shippedResults Unfused) ''2s'' 30) \<noteq>
     foldl fadd 0 (map TotalCost (shippedResults Unfused)) \<and>
   ResultTotalCost (fullResult exampleConfig 2 twoPages (shippedResults Unfused) ''2s'' 30) \<noteq>
     sum_list (map TotalCost (shippedResults Unfused)) \<and>
   ResultTotalCost (fullResult exampleConfig 2 twoPages (shippedResults FusedInput) ''2s'' 30) \<noteq>
     foldl fadd 0 (map TotalCost (shippedResults FusedInput)) \<and>
   ResultTotalCost (fullResult exampleConfig 2 twoPages (shippedResults FusedInput) ''2s'' 30) \<noteq>
     sum_list (map TotalCost (shippedResults FusedInput)) \<and>
   ResultTotalCost (fullResult exampleConfig 2 twoPages (shippedResults FusedOutput) ''2s'' 30) \<noteq>
     foldl fadd 0 (map TotalCost (shippedResults FusedOutput)) \<and>
   ResultTotalCost (fullResult exampleConfig 2 twoPages (shippedResults FusedOutput) ''2s'' 30) \<noteq>
     sum_list (map TotalCost (shippedResults FusedOutput))"
  unfolding shipped_total shipped_sum_of_unit_totals by simp

text \<open>
  C4, amended. The aggregate fields of the final result are folds of the per-unit
  results, in the arithmetic of the program. The total input tokens are the sum of the
  per-unit input tokens and the total output tokens the sum of the per-unit output
  tokens (sums of Go \<open>int\<close>: the signed value is the integer sum wrapped to 64 bits). The
  total input cost and the total output cost are the float64 sums, from left to right,
  of the per-unit input costs and of the per-unit output costs, and the total cost is
  the float64 sum of these two totals: it is computed from the per-unit input and output
  costs only, never from the token totals, and it is not the sum of the per-unit total
  costs. The chunk list of the result is the list that was folded.
\<close>

theorem totals_fold_unit_results:
  "Chunks (fullResult config totalPages chunks rs dur now) = rs \<and>
   TotalInputTokens (fullResult config totalPages chunks rs dur now) =
     sum_list (map InputTokens rs) \<and>
   TotalOutputTokens (fullResult config totalPages chunks rs dur now) =
     sum_list (map OutputTokens rs) \<and>
   sint (TotalInputTokens (fullResult config totalPages chunks rs dur now)) =
     signed_take_bit 63 (sum_list (map (\<lambda>r. sint (InputTokens r)) rs)) \<and>
   sint (TotalOutputTokens (fullResult config totalPages chunks rs dur now)) =
     signed_take_bit 63 (sum_list (map (\<lambda>r. sint (OutputTokens r)) rs)) \<and>
   TotalInputCost (fullResult config totalPages chunks rs dur now) =
     foldl fadd 0 (map InputCost rs) \<and>
   TotalOutputCost (fullResult config totalPages chunks rs dur now) =
     foldl fadd 0 (map OutputCost rs) \<and>
   ResultTotalCost (fullResult config totalPages chunks rs dur now) =
     fadd (foldl fadd 0 (map InputCost rs)) (foldl fadd 0 (map OutputCost rs))"
  using sint_sum_list [of "map InputTokens rs"] sint_sum_list [of "map OutputTokens rs"]
  by (simp add: fullResult_def chunkTotals_folds comp_def)

theorem totals_fold_unit_results_witness:
  "TotalInputTokens (fullResult exampleConfig 2 twoPages (shippedResults Unfused) ''2s'' 30) = 300 \<and>
   TotalOutputTokens (fullResult exampleConfig 2 twoPages (shippedResults Unfused) ''2s'' 30) = 150 \<and>
   TotalInputCost (fullResult exampleConfig 2 twoPages (shippedResults Unfused) ''2s'' 30) =
     2767011611056433 / 2 ^ 65 \<and>
   TotalOutputCost (fullResult exampleConfig 2 twoPages (shippedResults Unfused) ''2s'' 30) =
     3458764513820541 / 2 ^ 64 \<and>
   ResultTotalCost (fullResult exampleConfig 2 twoPages (shippedResults Unfused) ''2s'' 30) =
     2421135159674379 / 2 ^ 63 \<and>
   Chunks (fullResult exampleConfig 2 twoPages (shippedResults Unfused) ''2s'' 30) =
     shippedResults Unfused"
proof -
  have tokens: "map InputTokens (shippedResults Unfused) = [100, 200]"
    "map OutputTokens (shippedResults Unfused) = [50, 100]"
    by (simp_all add: shippedResults_def unitResult_fields)
  show ?thesis
    using totals_fold_unit_results [of exampleConfig 2 twoPages "shippedResults Unfused" "''2s''" 30]
    unfolding tokens shipped_fields
    by (simp add: shipped_sums)
qed

lemma example_unit_costs:
  "fmul (fdiv (float64_of_int 100) 1000000) 1 = 7378697629483821 / 73786976294838206464"
  "fmul (fdiv (float64_of_int 50) 1000000) 2 = 7378697629483821 / 73786976294838206464"
  "fmul (fdiv (float64_of_int 200) 1000000) 1 = 7378697629483821 / 36893488147419103232"
  "fmul (fdiv (float64_of_int 100) 1000000) 2 = 7378697629483821 / 36893488147419103232"
  by code_simp+

lemma example_sums:
  "fadd 0 (7378697629483821 / 73786976294838206464) = 7378697629483821 / 73786976294838206464"
  "fadd (7378697629483821 / 73786976294838206464) (7378697629483821 / 36893488147419103232) =
     2767011611056433 / 9223372036854775808"
  "fadd (2767011611056433 / 9223372036854775808) (2767011611056433 / 9223372036854775808) =
     5534023222112866 / 9223372036854775808"
  by code_simp+

lemma example_recomputed:
  "fadd (fmul (fdiv (float64_of_int 300) 1000000) 1) (fmul (fdiv (float64_of_int 150) 1000000) 2) =
     5534023222112865 / 9223372036854775808"
  by code_simp

lemma example_total:
  "ResultTotalCost (fullResult exampleConfig 2 twoPages (exampleResults build) ''2s'' 30) =
     5534023222112866 / 9223372036854775808"
  by (simp add: fullResult_def chunkTotals_folds exampleResults_def unitResult_costs(1,2)
      examplePrice_def example_unit_costs example_sums)

lemma one_token_each:
  "fmul (fdiv (float64_of_int 1) 1000000) (1 / 4) = 4722366482869645 / 18889465931478580854784"
  "fmul (fdiv (float64_of_int 1) 1000000) (5 / 4) = 368934881474191 / 295147905179352825856"
  "round64 (4722366482869645 / 18889465931478580854784 +
            368934881474191 / 295147905179352825856) =
     7083549724304467 / 4722366482869645213696"
  "round64 (4722366482869645 / 18889465931478580854784 +
            fdiv (float64_of_int 1) 1000000 * (5 / 4)) =
     1770887431076117 / 1180591620717411303424"
  by code_simp+

text \<open>
  C5, as stated, at its own example. The total cost of the two units with token counts
  (100, 50) and (200, 100) at the prices (1.0, 2.0) is not \<open>(300/1e6)*1.0 + (150/1e6)*2.0\<close>
  on any build: neither the exact number 0.0006, which no float64 is, nor the float64
  value of that expression. The program adds the rounded per-unit costs, and
  0.0001 + 0.0002 rounds upwards.
\<close>

theorem example_total_cost_counterexample:
  "ResultTotalCost (fullResult exampleConfig 2 twoPages (exampleResults Unfused) ''2s'' 30) \<noteq>
     300 / 1000000 * 1 + 150 / 1000000 * 2 \<and>
   ResultTotalCost (fullResult exampleConfig 2 twoPages (exampleResults Unfused) ''2s'' 30) \<noteq>
     fadd (fmul (fdiv (float64_of_int 300) 1000000) 1)
          (fmul (fdiv (float64_of_int 150) 1000000) 2) \<and>
   ResultTotalCost (fullResult exampleConfig 2 twoPages (exampleResults FusedInput) ''2s'' 30) \<noteq>
     300 / 1000000 * 1 + 150 / 1000000 * 2 \<and>
   ResultTotalCost (fullResult exampleConfig 2 twoPages (exampleResults FusedInput) ''2s'' 30) \<noteq>
     fadd (fmul (fdiv (float64_of_int 300) 1000000) 1)
          (fmul (fdiv (float64_of_int 150) 1000000) 2) \<and>
   ResultTotalCost (fullResult exampleConfig 2 twoPages (exampleResults FusedOutput) ''2s'' 30) \<noteq>
     300 / 1000000 * 1 + 150 / 1000000 * 2 \<and>
   ResultTotalCost (fullResult exampleConfig 2 twoPages (exampleResults FusedOutput) ''2s'' 30) \<noteq>
     fadd (fmul (fdiv (float64_of_int 300) 1000000) 1)
          (fmul (fdiv (float64_of_int 150) 1000000) 2)"
  by (simp add: example_total example_recomputed)

text \<open>
  C5, amended. The input cost and the output cost of every unit result are computed in
  float64 arithmetic by the formula: the input cost is \<open>float64(inputTokens) / 1_000_000\<close>
  times the input price, the output cost likewise, each operation rounded to the nearest
  float64. The total cost of the unit is their sum rounded to the nearest float64, or,
  on a build that fuses one of the two products into the sum, the exact product plus the
  other cost, rounded once. For the example the total cost of the batch is on every
  build the sum of the per-unit input and output costs, the float64
  \<open>5534023222112866 / 2 ^ 63\<close> (printed 0.0006000000000000001); it differs from
  \<open>(300/1e6)*1.0 + (150/1e6)*2.0\<close> by less than \<open>2 ^ -63\<close>, one unit in the last place.
\<close>

theorem unit_cost_formula:
  "InputCost (unitResult build pricing index chunk (analysis, inputTokens, outputTokens, err)
       dur now) =
     fmul (fdiv (float64_of_int inputTokens) 1000000) (InputPricePerMTokens pricing) \<and>
   OutputCost (unitResult build pricing index chunk (analysis, inputTokens, outputTokens, err)
       dur now) =
     fmul (fdiv (float64_of_int outputTokens) 1000000) (OutputPricePerMTokens pricing) \<and>
   TotalCost (unitResult build pricing index chunk (analysis, inputTokens, outputTokens, err)
       dur now) =
     (case build of
        Unfused \<Rightarrow>
          round64
            (fmul (fdiv (float64_of_int inputTokens) 1000000) (InputPricePerMTokens pricing) +
             fmul (fdiv (float64_of_int outputTokens) 1000000) (OutputPricePerMTokens pricing))
      | FusedInput \<Rightarrow>
          round64
            (fdiv (float64_of_int inputTokens) 1000000 * InputPricePerMTokens pricing +
             fmul (fdiv (float64_of_int outputTokens) 1000000) (OutputPricePerMTokens pricing))
      | FusedOutput \<Rightarrow>
          round64
            (fmul (fdiv (float64_of_int inputTokens) 1000000) (InputPricePerMTokens pricing) +
             fdiv (float64_of_int outputTokens) 1000000 * OutputPricePerMTokens pricing)) \<and>
   ResultTotalCost (fullResult exampleConfig 2 twoPages (exampleResults build) ''2s'' 30) =
     fadd (foldl fadd 0 (map InputCost (exampleResults build)))
          (foldl fadd 0 (map OutputCost (exampleResults build))) \<and>
   ResultTotalCost (fullResult exampleConfig 2 twoPages (exampleResults build) ''2s'' 30) =
     5534023222112866 / 2 ^ 63 \<and>
   \<bar>ResultTotalCost (fullResult exampleConfig 2 twoPages (exampleResults build) ''2s'' 30) -
      (300 / 1000000 * 1 + 150 / 1000000 * 2)\<bar> < 1 / 2 ^ 63"
proof -
  have "ResultTotalCost (fullResult exampleConfig 2 twoPages (exampleResults build) ''2s'' 30) =
     fadd (foldl fadd 0 (map InputCost (exampleResults build)))
          (foldl fadd 0 (map OutputCost (exampleResults build)))"
    by (simp add: fullResult_def chunkTotals_folds)
  then show ?thesis
    by (cases build) (simp_all add: unitResult_costs example_total fadd_def ffma_def add.commute)
qed

theorem unit_cost_formula_witness:
  "InputCost (unitResult Unfused (GetPricing ''claude-3-5-haiku-20241022'') 0 (twoPages ! 0)
       (''# Page 1'', 1, 1, None) ''1s'' 10) =
     4722366482869645 / 18889465931478580854784 \<and>
   OutputCost (unitResult Unfused (GetPricing ''claude-3-5-haiku-20241022'') 0 (twoPages ! 0)
       (''# Page 1'', 1, 1, None) ''1s'' 10) =
     368934881474191 / 295147905179352825856 \<and>
   TotalCost (unitResult Unfused (GetPricing ''claude-3-5-haiku-20241022'') 0 (twoPages ! 0)
       (''# Page 1'', 1, 1, None) ''1s'' 10) =
     7083549724304467 / 4722366482869645213696 \<and>
   TotalCost (unitResult FusedOutput (GetPricing ''claude-3-5-haiku-20241022'') 0 (twoPages ! 0)
       (''# Page 1'', 1, 1, None) ''1s'' 10) =
     1770887431076117 / 1180591620717411303424"
  using unit_cost_formula [of Unfused "GetPricing ''claude-3-5-haiku-20241022''" 0 "twoPages ! 0"
      "''# Page 1''" 1 1 None "''1s''" 10]
    unit_cost_formula [of FusedOutput "GetPricing ''claude-3-5-haiku-20241022''" 0 "twoPages ! 0"
      "''# Page 1''" 1 1 None "''1s''" 10]
  unfolding shippedPrice fusion.case one_token_each
  by blast

subsection \<open>Set-up and exit status\<close>

lemma splitPDFIntoChunks_no_pages: "splitPDFIntoChunks env tempDir 1 0 = Some ([], None)"
  by (simp add: splitPDFIntoChunks_def splitLoop.simps)

lemma fullResult_empty:
  "fullResult config 0 [] [] dur now =
     \<lparr>ResultPDFPath = PDFPath config, TotalPages = 0, TotalChunks = 0, Chunks = [],
      TotalInputTokens = 0, TotalOutputTokens = 0, TotalInputCost = 0, TotalOutputCost = 0,
      ResultTotalCost = 0, ResultProcessingTime = dur, GeneratedAt = now\<rparr>"
  by (simp add: fullResult_def chunkTotals_def fadd_def round64_def)

lemma no_units_no_results:
  assumes "units b = []" and "exec b es (init b) = Some s"
  shows "results s = []"
  using invD(2) [OF inv_exec [OF inv_init assms(2)]] assms(1) by simp

lemma no_units_Join:
  "units b = [] \<Longrightarrow> exec b [Join] (init b) = Some ((init b)\<lparr>joined := True\<rparr>)"
  by (simp add: init_def)

lemma zeroPagesEnv_fields:
  "length (os_Args zeroPagesEnv) = 2" "os_Args zeroPagesEnv ! Suc 0 = ''doc.pdf''"
  "Getenv_ANTHROPIC_API_KEY zeroPagesEnv = ''sk-ant''" "\<not> Stat_IsNotExist zeroPagesEnv"
  "os_Open zeroPagesEnv = Inr ()" "api_PageCount zeroPagesEnv = Inr 0"
  "os_MkdirTemp zeroPagesEnv = Inr ''/tmp/pdf-chunks-1''"
  by (simp_all add: zeroPagesEnv_def)

lemma main_no_pages:
  assumes "2 \<le> length (os_Args env)" and "Getenv_ANTHROPIC_API_KEY env \<noteq> ''''"
    and "\<not> Stat_IsNotExist env" and "os_Open env = Inr ()" and "api_PageCount env = Inr 0"
    and "os_MkdirTemp env = Inr tempDir"
  shows "main build env f es dur now =
     (case exec (mainBatch build ''claude-3-5-haiku-20241022'' [] f) es
             (init (mainBatch build ''claude-3-5-haiku-20241022'' [] f)) of
        None \<Rightarrow> None
      | Some s \<Rightarrow>
          if joined s
          then Some (Completed
                 (fullResult \<lparr>APIKey = Getenv_ANTHROPIC_API_KEY env,
                               ModelName = ''claude-3-5-haiku-20241022'',
                               PDFPath = os_Args env ! 1\<rparr> 0 [] (results s) dur now))
          else None)"
  using assms
  by (simp add: main_def getPageCount_def splitPDFIntoChunks_no_pages Let_def del: One_nat_def)

text \<open>
  C8, as stated, at a document of zero pages with the argument, the credential and the
  file in order: the program does not abort. \<open>getPageCount\<close> returns 0 and no error, the
  split returns no chunk and no error, the dispatcher starts no worker and \<open>wg.Wait()\<close>
  returns at once; \<open>main\<close> returns with an empty result, that is with exit status 0.
\<close>

theorem zero_pages_counterexample:
  "api_PageCount zeroPagesEnv = Inr 0 \<and>
   main Unfused zeroPagesEnv (analyze smallBatch) [Join] ''2ms'' 30 =
     Some (Completed
       \<lparr>ResultPDFPath = ''doc.pdf'', TotalPages = 0, TotalChunks = 0, Chunks = [],
        TotalInputTokens = 0, TotalOutputTokens = 0, TotalInputCost = 0, TotalOutputCost = 0,
        ResultTotalCost = 0, ResultProcessingTime = ''2ms'', GeneratedAt = 30\<rparr>) \<and>
   exitCode (Completed
       \<lparr>ResultPDFPath = ''doc.pdf'', TotalPages = 0, TotalChunks = 0, Chunks = [],
        TotalInputTokens = 0, TotalOutputTokens = 0, TotalInputCost = 0, TotalOutputCost = 0,
        ResultTotalCost = 0, ResultProcessingTime = ''2ms'', GeneratedAt = 30\<rparr>) = 0"
  using main_no_pages [of zeroPagesEnv "''/tmp/pdf-chunks-1''" Unfused "analyze smallBatch" "[Join]" "''2ms''" 30]
  by (simp add: zeroPagesEnv_fields no_units_Join mainBatch_def init_def fullResult_empty)

text \<open>
  C8, amended. If the document has zero pages (the page count is read without error and
  is 0) and the rest of the set-up is in order, the program does not abort: it goes on
  to the dispatcher with no chunk, which completes at once, and returns with exit status
  0 and a result that has no chunk entry and zero totals. No interleaving ends in
  \<open>log.Fatal\<close>: every execution of the dispatcher up to the return of \<open>wg.Wait()\<close> gives
  that same result.
\<close>

theorem zero_pages_complete_empty:
  assumes "2 \<le> length (os_Args env)" and "Getenv_ANTHROPIC_API_KEY env \<noteq> ''''"
    and "\<not> Stat_IsNotExist env" and "os_Open env = Inr ()" and "api_PageCount env = Inr 0"
    and "os_MkdirTemp env = Inr tempDir"
  shows "main build env f [Join] dur now =
           Some (Completed
             \<lparr>ResultPDFPath = os_Args env ! 1, TotalPages = 0, TotalChunks = 0, Chunks = [],
              TotalInputTokens = 0, TotalOutputTokens = 0, TotalInputCost = 0,
              TotalOutputCost = 0, ResultTotalCost = 0, ResultProcessingTime = dur,
              GeneratedAt = now\<rparr>) \<and>
         (\<forall>es. main build env f es dur now = None \<or>
               main build env f es dur now = main build env f [Join] dur now) \<and>
         (\<forall>r. main build env f [Join] dur now = Some r \<longrightarrow> exitCode r = 0)"
proof -
  let ?b = "mainBatch build ''claude-3-5-haiku-20241022'' [] f"
  have u: "units ?b = []" by (simp add: mainBatch_def)
  have j: "main build env f [Join] dur now =
           Some (Completed
             \<lparr>ResultPDFPath = os_Args env ! 1, TotalPages = 0, TotalChunks = 0, Chunks = [],
              TotalInputTokens = 0, TotalOutputTokens = 0, TotalInputCost = 0,
              TotalOutputCost = 0, ResultTotalCost = 0, ResultProcessingTime = dur,
              GeneratedAt = now\<rparr>)"
    unfolding main_no_pages [OF assms]
    by (simp add: no_units_Join [OF u] init_def mainBatch_def fullResult_empty)
  have "main build env f es dur now = None \<or> main build env f es dur now = main build env f [Join] dur now"
    for es
  proof (cases "exec ?b es (init ?b)")
    case None
    then show ?thesis unfolding main_no_pages [OF assms] by simp
  next
    case (Some s)
    have "results s = []" by (rule no_units_no_results [OF u Some])
    then show ?thesis
      unfolding j unfolding main_no_pages [OF assms] using Some
      by (simp add: fullResult_empty)
  qed
  then show ?thesis using j by simp
qed

theorem zero_pages_complete_empty_witness:
  "2 \<le> length (os_Args zeroPagesEnv) \<and> api_PageCount zeroPagesEnv = Inr 0 \<and>
   (\<exists>r. main Unfused zeroPagesEnv (analyze smallBatch) [Join] ''2ms'' 30 = Some (Completed r) \<and>
        Chunks r = [] \<and> ResultTotalCost r = 0 \<and> exitCode (Completed r) = 0) \<and>
   main Unfused zeroPagesEnv (analyze smallBatch) [Spawn] ''2ms'' 30 = None"
proof -
  have h: "2 \<le> length (os_Args zeroPagesEnv)" "Getenv_ANTHROPIC_API_KEY zeroPagesEnv \<noteq> ''''"
    "\<not> Stat_IsNotExist zeroPagesEnv" "os_Open zeroPagesEnv = Inr ()"
    "api_PageCount zeroPagesEnv = Inr 0" "os_MkdirTemp zeroPagesEnv = Inr ''/tmp/pdf-chunks-1''"
    by (simp_all add: zeroPagesEnv_fields)
  have "main Unfused zeroPagesEnv (analyze smallBatch) [Spawn] ''2ms'' 30 = None"
    unfolding main_no_pages [OF h] by (simp add: mainBatch_def init_def)
  then show ?thesis
    using zero_pages_complete_empty [OF h, of Unfused "analyze smallBatch" "''2ms''" 30] h(1,5)
    by simp
qed

end
